theory Spec2Isabelle
  imports Complex_Main
begin

section \<open>Data model of \<open>dremioai/api/dremio/sql.py\<close>\<close>

text \<open>
  Python exceptions are values. \<open>RuntimeError\<close> carries its message; the failures of the
  HTTP transport and of the ADBC driver are opaque to this module and are tagged with
  a label only.
\<close>

datatype error =
    RuntimeError string
  | TypeError
  | IndexError
  | ValueError
  | ValidationError
  | TransportError string
  | DriverError string

datatype ArcticSourceType = BRANCH | TAG | COMMIT

record ArcticSource =
  source_type :: ArcticSourceType
  source_value :: string

record Query =
  sql :: string
  context_path :: "string list option"
  references :: "(string \<times> ArcticSource) list option"

record QuerySubmission =
  job_id :: string

datatype JobState =
    NOT_SUBMITTED
  | STARTING
  | RUNNING
  | COMPLETED
  | CANCELED
  | FAILED
  | CANCELLATION_REQUESTED
  | PLANNING
  | PENDING
  | METADATA_RETRIEVAL
  | QUEUED
  | ENGINE_START
  | EXECUTION_PLANNING
  | INVALID_STATE

datatype QueryType =
    UI_RUN
  | UI_PREVIEW
  | UI_INTERNAL_PREVIEW
  | UI_INTERNAL_RUN
  | UI_EXPORT
  | ODBC
  | JDBC
  | REST
  | ACCELERATOR_CREATE
  | ACCELERATOR_DROP
  | UNKNOWN
  | PREPARE_INTERNAL
  | ACCELERATOR_EXPLAIN
  | UI_INITIAL_PREVIEW

datatype Relationship = CONSIDERED | MATCHED | CHOSEN

record ReflectionReleationShips =
  dataset_id :: string
  reflection_id :: string
  relationship :: Relationship

record Acceleration =
  reflection_relationships :: "ReflectionReleationShips list"

text \<open>
  A \<open>datetime\<close> is a timestamp that has passed validation: a point in time, in
  microseconds since the epoch. The module never inspects one.
\<close>

datatype datetime = Datetime int

record Job =
  job_state :: JobState
  row_count :: "int option"
  error_message :: "string option"
  started_at :: "datetime option"
  ended_at :: "datetime option"
  acceleration :: "Acceleration option"
  query_type :: QueryType
  queue_name :: "string option"
  queue_id :: "string option"
  resource_scheduling_started_at :: "datetime option"
  resource_scheduling_ended_at :: "datetime option"
  cancellation_reason :: "string option"

text \<open>The two properties of \<open>Job\<close> (lines 128-138).\<close>

definition Job_done :: "Job \<Rightarrow> bool" where
  "Job_done j = (job_state j \<in> {COMPLETED, CANCELED, FAILED})"

definition Job_succeeded :: "Job \<Rightarrow> bool" where
  "Job_succeeded j = (job_state j = COMPLETED)"


record ResultSchemaType =
  type_name :: string

record ResultSchema =
  schema_name :: string
  schema_type :: ResultSchemaType

text \<open>
  A row is a Python \<open>dict\<close> from column name to value: an association list with distinct
  keys in insertion order. Cell values (\<open>Any\<close>) are the type parameter \<open>'v\<close>.
\<close>

type_synonym 'v row = "(string \<times> 'v) list"

record 'v JobResults =
  results_row_count :: int
  result_schema :: "ResultSchema list option"
  rows :: "'v row list"

record JobResultsParams =
  offset :: "int option"
  limit :: "int option"

section \<open>Python primitives used by the module\<close>

text \<open>\<open>d[k] = v\<close> on a dict: an existing key keeps its place and takes the new value.\<close>

fun dict_set :: "'k \<Rightarrow> 'a \<Rightarrow> ('k \<times> 'a) list \<Rightarrow> ('k \<times> 'a) list" where
  "dict_set k v [] = [(k, v)]"
| "dict_set k v ((k', v') # d) = (if k' = k then (k', v) # d else (k', v') # dict_set k v d)"

text \<open>Truth value of an \<open>Optional[str]\<close>: \<open>None\<close> and the empty string are false.\<close>

definition truthy :: "string option \<Rightarrow> bool" where
  "truthy s = (case s of None \<Rightarrow> False | Some t \<Rightarrow> t \<noteq> [])"

text \<open>An \<open>Optional[str]\<close> interpolated in an f-string: \<open>None\<close> prints as the text None.\<close>

definition format_opt :: "string option \<Rightarrow> string" where
  "format_opt s = (case s of None \<Rightarrow> ''None'' | Some t \<Rightarrow> t)"

text \<open>\<open>range(start, stop, step)\<close>; a zero step raises \<open>ValueError\<close>.\<close>

function range_up :: "int \<Rightarrow> int \<Rightarrow> int \<Rightarrow> int list" where
  "range_up i stop step =
     (if 0 < step \<and> i < stop then i # range_up (i + step) stop step else [])"
  by pat_completeness auto
termination
  by (relation "measure (\<lambda>(i, stop, step). nat (stop - i))") auto

function range_down :: "int \<Rightarrow> int \<Rightarrow> int \<Rightarrow> int list" where
  "range_down i stop step =
     (if step < 0 \<and> stop < i then i # range_down (i + step) stop step else [])"
  by pat_completeness auto
termination
  by (relation "measure (\<lambda>(i, stop, step). nat (i - stop))") auto

definition py_range :: "int \<Rightarrow> int \<Rightarrow> int \<Rightarrow> error + int list" where
  "py_range start stop step =
     (if step = 0 then Inl ValueError
      else if 0 < step then Inr (range_up start stop step)
      else Inr (range_down start stop step))"

section \<open>Deserialisation of a job snapshot\<close>

text \<open>
  A field of the JSON object the service returns is absent, \<open>null\<close>, present with a
  value of the declared type, or present with a value that does not validate against the
  declared type (a text that is not a timestamp for a \<open>datetime\<close>, a state that is not
  a member of the enumeration, and so on). The declarations of lines 110-126 fix what
  validation gives: \<open>jobState\<close> and \<open>queryType\<close> are required; every other field is
  optional with the declared default (\<open>0\<close> for \<open>rowCount\<close>, \<open>None\<close> for the rest), and an
  explicit \<open>null\<close> gives \<open>None\<close>; a value that does not validate raises
  \<open>ValidationError\<close>, whatever the field.
\<close>

datatype 'a field = Absent | Null | Present 'a | Invalid

record JobSnapshot =
  jobState :: "JobState field"
  rowCount :: "int field"
  errorMessage :: "string field"
  startedAt :: "datetime field"
  endedAt :: "datetime field"
  acceleration_json :: "Acceleration field"
  queryType :: "QueryType field"
  queueName :: "string field"
  queueId :: "string field"
  resourceSchedulingStartedAt :: "datetime field"
  resourceSchedulingEndedAt :: "datetime field"
  cancellationReason :: "string field"

definition required :: "'a field \<Rightarrow> error + 'a" where
  "required f = (case f of Present v \<Rightarrow> Inr v | _ \<Rightarrow> Inl ValidationError)"

definition optional :: "'a option \<Rightarrow> 'a field \<Rightarrow> error + 'a option" where
  "optional dflt f =
     (case f of
        Absent \<Rightarrow> Inr dflt
      | Null \<Rightarrow> Inr None
      | Present v \<Rightarrow> Inr (Some v)
      | Invalid \<Rightarrow> Inl ValidationError)"

text \<open>The next validation runs on the value of the one before; a failure ends the chain.\<close>

definition and_then :: "error + 'a \<Rightarrow> ('a \<Rightarrow> error + 'b) \<Rightarrow> error + 'b" where
  "and_then r f = (case r of Inl e \<Rightarrow> Inl e | Inr v \<Rightarrow> f v)"

definition deser_Job :: "JobSnapshot \<Rightarrow> error + Job" where
  "deser_Job s =
     and_then (required (jobState s)) (\<lambda>st.
     and_then (optional (Some 0) (rowCount s)) (\<lambda>rc.
     and_then (optional None (errorMessage s)) (\<lambda>em.
     and_then (optional None (startedAt s)) (\<lambda>sa.
     and_then (optional None (endedAt s)) (\<lambda>ea.
     and_then (optional None (acceleration_json s)) (\<lambda>acc.
     and_then (required (queryType s)) (\<lambda>qt.
     and_then (optional None (queueName s)) (\<lambda>qn.
     and_then (optional None (queueId s)) (\<lambda>qi.
     and_then (optional None (resourceSchedulingStartedAt s)) (\<lambda>rsa.
     and_then (optional None (resourceSchedulingEndedAt s)) (\<lambda>rea.
     and_then (optional None (cancellationReason s)) (\<lambda>cr.
       Inr \<lparr> job_state = st,
             row_count = rc,
             error_message = em,
             started_at = sa,
             ended_at = ea,
             acceleration = acc,
             query_type = qt,
             queue_name = qn,
             queue_id = qi,
             resource_scheduling_started_at = rsa,
             resource_scheduling_ended_at = rea,
             cancellation_reason = cr \<rparr>))))))))))))"

section \<open>The outside world\<close>

text \<open>
  Everything the module does to the outside is logged as an event, in the order issued.
\<close>

datatype event =
    GetJob string
  | Sleep
  | GetJobResults string JobResultsParams
  | PostSql string Query
  | Connect string "(string \<times> string) list" "(string \<times> string) list"
  | CursorOpen
  | Execute string
  | FetchDf
  | FetchAll
  | CursorClose
  | ConnClose

text \<open>
  The HTTP client (\<open>dremioai.api.transport\<close>) is a collaborator: the service's answers are
  parameters. \<open>job_snapshots\<close> are the successive answers to the status request,
  \<open>results_response\<close> the answer to a page request (a page is an idempotent read, so a
  function of path and parameters), \<open>sql_response\<close> the answer to a submission, and
  \<open>completion_order\<close> the order in which the concurrently issued page requests complete
  (indices into the list of requests).
\<close>

record 'v transport =
  job_snapshots :: "(error + JobSnapshot) list"
  results_response :: "string \<Rightarrow> JobResultsParams \<Rightarrow> error + 'v JobResults"
  sql_response :: "string \<Rightarrow> Query \<Rightarrow> error + QuerySubmission"
  completion_order :: "nat list"

text \<open>
  pandas is a third-party library: a table is the abstract type \<open>'df\<close> and the three
  operations the module calls are parameters: \<open>pd.DataFrame()\<close>,
  \<open>pd.DataFrame(data=..., columns=...)\<close> and the statement
  \<open>df[name] = pd.to_datetime(df[name])\<close>.
\<close>

record ('v, 'df) pandas =
  DataFrame_empty :: 'df
  DataFrame_of :: "'v row list \<Rightarrow> string list \<Rightarrow> 'df"
  to_datetime_column :: "'df \<Rightarrow> string \<Rightarrow> error + 'df"

datatype ('v, 'df) query_result = Frame 'df | Wrapper "'v JobResults list"

section \<open>The job-polling path\<close>

definition endpoint_of :: "string option \<Rightarrow> string" where
  "endpoint_of project_id =
     (case project_id of
        None \<Rightarrow> ''/api/v3''
      | Some p \<Rightarrow> if p \<noteq> [] then ''/v0/projects/'' @ p else ''/api/v3'')"

text \<open>
  \<open>_fetch_results\<close> (lines 165-175): the request it issues and the answer it returns.
  The arguments \<open>uri\<close> and \<open>pat\<close> are not used by the source either.
\<close>

definition fetch_results ::
  "'v transport \<Rightarrow> string option \<Rightarrow> string option \<Rightarrow> string option \<Rightarrow> string \<Rightarrow> int \<Rightarrow> int
     \<Rightarrow> event \<times> (error + 'v JobResults)" where
  "fetch_results w uri pat project_id job off lmt =
     (let params = \<lparr> offset = Some off, limit = Some lmt \<rparr>;
          path = endpoint_of project_id @ ''/job/'' @ job @ ''/results''
      in (GetJobResults path params, results_response w path params))"

text \<open>
  Modelled from the spec: \<open>run_in_parallel\<close> of \<open>dremioai.api.util\<close>, which is not among
  the sources. The spec: all fetches are issued concurrently, the engine waits for all to
  complete, propagates the first failure, and reassembles the pages by offset, that is by
  position in the list of requests. The tasks complete in the order \<open>order\<close>; each
  completion stores its result in the slot of its task; the first failure to complete
  is propagated. While a slot is empty the wait is not over (result \<open>None\<close>).
\<close>

fun complete_tasks :: "nat list \<Rightarrow> (error + 'a) list \<Rightarrow> 'a option list \<Rightarrow> error + 'a option list" where
  "complete_tasks [] tasks slots = Inr slots"
| "complete_tasks (i # order) tasks slots =
     (if i < length tasks then
        (case tasks ! i of
           Inl e \<Rightarrow> Inl e
         | Inr r \<Rightarrow> complete_tasks order tasks (slots[i := Some r]))
      else complete_tasks order tasks slots)"

fun collect_slots :: "'a option list \<Rightarrow> 'a list option" where
  "collect_slots [] = Some []"
| "collect_slots (None # slots) = None"
| "collect_slots (Some r # slots) =
     (case collect_slots slots of None \<Rightarrow> None | Some rs \<Rightarrow> Some (r # rs))"

definition run_in_parallel :: "nat list \<Rightarrow> (error + 'a) list \<Rightarrow> (error + 'a list) option" where
  "run_in_parallel order tasks =
     (case complete_tasks order tasks (replicate (length tasks) None) of
        Inl e \<Rightarrow> Some (Inl e)
      | Inr slots \<Rightarrow>
          (case collect_slots slots of None \<Rightarrow> None | Some rs \<Rightarrow> Some (Inr rs)))"

text \<open>
  The status loop of lines 193-196. Each request consumes the next answer of the
  service; an answer that fails (or does not validate) propagates. When the answers run
  out before a terminal state is seen the loop has not returned: \<open>None\<close>.
\<close>

definition client_get_job :: "error + JobSnapshot \<Rightarrow> error + Job" where
  "client_get_job r = (case r of Inl e \<Rightarrow> Inl e | Inr s \<Rightarrow> deser_Job s)"

fun poll :: "(error + JobSnapshot) list \<Rightarrow> string \<Rightarrow> ((error + Job) \<times> event list) option" where
  "poll [] path = None"
| "poll (r # rs) path =
     (case client_get_job r of
        Inl e \<Rightarrow> Some (Inl e, [GetJob path])
      | Inr job \<Rightarrow>
          if Job_done job then Some (Inr job, [GetJob path])
          else (case poll rs path of
                  None \<Rightarrow> None
                | Some (res, tr) \<Rightarrow> Some (res, GetJob path # Sleep # tr)))"

text \<open>The message of lines 199-207.\<close>

definition emsg :: "Job \<Rightarrow> string" where
  "emsg job =
     (if truthy (error_message job) then format_opt (error_message job)
      else if job_state job = CANCELED then format_opt (cancellation_reason job)
      else ''Unknown error'')"

text \<open>The tabular projection of lines 223-231.\<close>

fun coerce_timestamps :: "('v, 'df) pandas \<Rightarrow> ResultSchema list \<Rightarrow> 'df \<Rightarrow> error + 'df" where
  "coerce_timestamps pd [] df = Inr df"
| "coerce_timestamps pd (rs # rss) df =
     (if type_name (schema_type rs) = ''TIMESTAMP'' then
        (case to_datetime_column pd df (schema_name rs) of
           Inl e \<Rightarrow> Inl e
         | Inr df' \<Rightarrow> coerce_timestamps pd rss df')
      else coerce_timestamps pd rss df)"

definition to_frame :: "('v, 'df) pandas \<Rightarrow> 'v JobResults list \<Rightarrow> error + 'df" where
  "to_frame pd jr =
     (case jr of
        [] \<Rightarrow> Inl IndexError
      | first # _ \<Rightarrow>
          (case result_schema first of
             None \<Rightarrow> Inl TypeError
           | Some schema \<Rightarrow>
               coerce_timestamps pd schema
                 (DataFrame_of pd (concat (map rows jr)) (map schema_name schema))))"

datatype qs_arg = QsStr string | QsObj QuerySubmission

text \<open>Lines 186-187: a bare job identifier is wrapped into a \<open>QuerySubmission\<close>.\<close>

definition as_submission :: "qs_arg \<Rightarrow> QuerySubmission" where
  "as_submission qs = (case qs of QsStr s \<Rightarrow> \<lparr> job_id = s \<rparr> | QsObj q \<Rightarrow> q)"

text \<open>
  \<open>get_results\<close> (lines 178-233). The result is the value returned or the exception
  raised, with the events issued; \<open>None\<close> when the status loop does not return.
  A \<open>row_count\<close> of \<open>None\<close> is not equal to \<open>0\<close> and makes \<open>min(500, None)\<close> raise
  \<open>TypeError\<close>.
\<close>

definition get_results ::
  "'v transport \<Rightarrow> ('v, 'df) pandas \<Rightarrow> string option \<Rightarrow> qs_arg \<Rightarrow> bool \<Rightarrow> string option
     \<Rightarrow> string option \<Rightarrow> ((error + ('v, 'df) query_result) \<times> event list) option" where
  "get_results w pd project_id qs use_df uri pat =
     (let qs' = as_submission qs;
          endpoint = endpoint_of project_id
      in case poll (job_snapshots w) (endpoint @ ''/job/'' @ job_id qs') of
           None \<Rightarrow> None
         | Some (Inl e, tr) \<Rightarrow> Some (Inl e, tr)
         | Some (Inr job, tr) \<Rightarrow>
             if \<not> Job_succeeded job then
               Some (Inl (RuntimeError (''Job '' @ job_id qs' @ '' failed: '' @ emsg job)), tr)
             else
               (case row_count job of
                  None \<Rightarrow> Some (Inl TypeError, tr)
                | Some rc \<Rightarrow>
                    if rc = 0 then
                      Some (Inr (if use_df then Frame (DataFrame_empty pd) else Wrapper []), tr)
                    else
                      (let lmt = min 500 rc in
                       case py_range 0 rc lmt of
                         Inl e \<Rightarrow> Some (Inl e, tr)
                       | Inr offs \<Rightarrow>
                           (let fetches =
                                  map (\<lambda>off. fetch_results w uri pat project_id (job_id qs') off lmt) offs;
                                tr' = tr @ map fst fetches
                            in case run_in_parallel (completion_order w) (map snd fetches) of
                                 None \<Rightarrow> None
                               | Some (Inl e) \<Rightarrow> Some (Inl e, tr')
                               | Some (Inr jr) \<Rightarrow>
                                   if use_df then
                                     (case to_frame pd jr of
                                        Inl e \<Rightarrow> Some (Inl e, tr')
                                      | Inr df \<Rightarrow> Some (Inr (Frame df), tr'))
                                   else Some (Inr (Wrapper jr), tr')))))"

section \<open>The direct-protocol path\<close>

text \<open>
  The six components of \<open>urllib.parse.ParseResult\<close> (\<open>scheme\<close>, \<open>netloc\<close>, \<open>path\<close>,
  \<open>params\<close>, \<open>query\<close>, \<open>fragment\<close>). \<open>urlparse\<close> and \<open>geturl\<close> belong to
  the standard library and are parameters. \<open>urlparse\<close> raises \<open>ValueError\<close> on some
  strings; the parameter gives its result on the strings it accepts, and nothing is said
  of the others.
\<close>

record ParseResult =
  url_scheme :: string
  url_netloc :: string
  url_path :: string
  url_params :: string
  url_query :: string
  url_fragment :: string

definition startswith :: "string \<Rightarrow> string \<Rightarrow> bool" where
  "startswith s p = (take (length p) s = p)"

definition convert_to_adbc_uri :: "(string \<Rightarrow> ParseResult) \<Rightarrow> string \<Rightarrow> bool \<Rightarrow> ParseResult" where
  "convert_to_adbc_uri urlparse uri is_dc =
     (let u = urlparse uri;
          u' = (if is_dc \<and> startswith (url_netloc u) ''api.''
                then u\<lparr> url_netloc := ''data.'' @ drop 4 (url_netloc u) \<rparr> else u)
      in u'\<lparr> url_scheme := ''grpc+tls'' \<rparr>)"

text \<open>
  The option names are constants of the driver package \<open>adbc_driver_flightsql\<close>
  (\<open>DatabaseOptions\<close>, \<open>ConnectionOptions\<close>): parameters.
\<close>

record flightsql_options =
  AUTHORIZATION_HEADER :: string
  RPC_CALL_HEADER_PREFIX :: string
  OPTION_SESSION_OPTION_PREFIX :: string

definition dict_of :: "('k \<times> 'a) list \<Rightarrow> ('k \<times> 'a) list" where
  "dict_of items = fold (\<lambda>(k, v) d. dict_set k v d) items []"

definition create_adbc_connection_options ::
  "flightsql_options \<Rightarrow> string \<Rightarrow> string option
     \<Rightarrow> (string \<times> string) list \<times> (string \<times> string) list" where
  "create_adbc_connection_options opts pat project_id =
     (let session_options = dict_of [(''routing_tag'', ''MCP'')];
          db_args = dict_of [(AUTHORIZATION_HEADER opts, ''Bearer '' @ pat),
                             (RPC_CALL_HEADER_PREFIX opts @ ''useEncryption'', ''true'')];
          db_args' = (if truthy project_id
                      then dict_set (RPC_CALL_HEADER_PREFIX opts @ ''Cookie'')
                             (''project_id='' @ format_opt project_id) db_args
                      else db_args)
      in (db_args',
          dict_of (map (\<lambda>(key, v). (OPTION_SESSION_OPTION_PREFIX opts @ key, v)) session_options)))"

text \<open>
  The ADBC driver is a collaborator: what each of its calls does is a parameter. Any call
  may raise, the two \<open>close\<close> calls included. A column descriptor of
  \<open>cursor.description\<close> is read at positions 0 (name) and 1 (type code) only; the type
  code has the abstract type \<open>'t\<close> and \<open>str_of_type\<close> is Python's \<open>str\<close> on it.
\<close>

record ('v, 't, 'df) driver =
  connect_fails :: "string \<Rightarrow> (string \<times> string) list \<Rightarrow> (string \<times> string) list \<Rightarrow> error option"
  cursor_fails :: "error option"
  execute_fails :: "string \<Rightarrow> error option"
  fetch_df_result :: "string \<Rightarrow> error + 'df"
  fetchall_result :: "string \<Rightarrow> error + 'v list list"
  description :: "string \<Rightarrow> (string \<times> 't) list"
  str_of_type :: "'t \<Rightarrow> string"
  cursor_close_fails :: "error option"
  conn_close_fails :: "error option"

text \<open>
  \<open>adbc_connect\<close> and \<open>adbc_cursor\<close> (lines 261-291) are context managers: \<open>body\<close> is the
  outcome of the block under \<open>async with\<close>, which runs only when the resource was
  acquired. The \<open>finally\<close> clause closes the resource when it is not \<open>None\<close>; an exception
  raised by \<open>close\<close> replaces the outcome of the block.
\<close>

definition adbc_connect ::
  "('v, 't, 'df) driver \<Rightarrow> string \<Rightarrow> (string \<times> string) list \<Rightarrow> (string \<times> string) list
     \<Rightarrow> (error + 'a) \<times> event list \<Rightarrow> (error + 'a) \<times> event list" where
  "adbc_connect drv uri db_args conn_args body =
     (case connect_fails drv uri db_args conn_args of
        Some e \<Rightarrow> (Inl e, [Connect uri db_args conn_args])
      | None \<Rightarrow>
          (case conn_close_fails drv of
             None \<Rightarrow> (fst body, Connect uri db_args conn_args # snd body @ [ConnClose])
           | Some e \<Rightarrow> (Inl e, Connect uri db_args conn_args # snd body @ [ConnClose])))"

definition adbc_cursor ::
  "('v, 't, 'df) driver \<Rightarrow> (error + 'a) \<times> event list \<Rightarrow> (error + 'a) \<times> event list" where
  "adbc_cursor drv body =
     (case cursor_fails drv of
        Some e \<Rightarrow> (Inl e, [CursorOpen])
      | None \<Rightarrow>
          (case cursor_close_fails drv of
             None \<Rightarrow> (fst body, CursorOpen # snd body @ [CursorClose])
           | Some e \<Rightarrow> (Inl e, CursorOpen # snd body @ [CursorClose])))"

text \<open>
  \<open>convert_to_job_results\<close> (lines 294-304). \<open>convert_row\<close> is the dict comprehension over
  \<open>enumerate(row)\<close>: \<open>rs[ix]\<close> raises \<open>IndexError\<close> when the row has more values than there
  are descriptors, and a name that occurs again overwrites the earlier value.
\<close>

fun convert_row_from :: "ResultSchema list \<Rightarrow> nat \<Rightarrow> 'v list \<Rightarrow> 'v row \<Rightarrow> error + 'v row" where
  "convert_row_from rs ix [] d = Inr d"
| "convert_row_from rs ix (col # cols) d =
     (if ix < length rs
      then convert_row_from rs (Suc ix) cols (dict_set (schema_name (rs ! ix)) col d)
      else Inl IndexError)"

definition convert_row :: "ResultSchema list \<Rightarrow> 'v list \<Rightarrow> error + 'v row" where
  "convert_row rs r = convert_row_from rs 0 r []"

fun convert_rows :: "ResultSchema list \<Rightarrow> 'v list list \<Rightarrow> error + 'v row list" where
  "convert_rows rs [] = Inr []"
| "convert_rows rs (r # rest) =
     (case convert_row rs r of
        Inl e \<Rightarrow> Inl e
      | Inr d \<Rightarrow> (case convert_rows rs rest of Inl e \<Rightarrow> Inl e | Inr ds \<Rightarrow> Inr (d # ds)))"

text \<open>The comprehension of lines 295-298: one \<open>ResultSchema\<close> per descriptor, in order.\<close>

definition result_schema_of :: "('t \<Rightarrow> string) \<Rightarrow> (string \<times> 't) list \<Rightarrow> ResultSchema list" where
  "result_schema_of str schema =
     map (\<lambda>info. \<lparr> schema_name = fst info, schema_type = \<lparr> type_name = str (snd info) \<rparr> \<rparr>) schema"

definition convert_to_job_results ::
  "('t \<Rightarrow> string) \<Rightarrow> (string \<times> 't) list \<Rightarrow> 'v list list \<Rightarrow> error + 'v JobResults list" where
  "convert_to_job_results str schema tuples =
     (let rs = result_schema_of str schema
      in case convert_rows rs tuples of
           Inl e \<Rightarrow> Inl e
         | Inr rsrows \<Rightarrow>
             Inr [\<lparr> results_row_count = int (length tuples),
                     result_schema = Some rs,
                     rows = rsrows \<rparr>])"

text \<open>The settings read through \<open>settings.instance().dremio\<close>.\<close>

record settings =
  dremio_uri :: string
  dremio_pat :: string
  dremio_project_id :: "string option"
  dremio_is_cloud :: bool

record ('v, 't, 'df) env =
  http :: "'v transport"
  pandas_lib :: "('v, 'df) pandas"
  adbc :: "('v, 't, 'df) driver"
  config :: settings
  urlparse :: "string \<Rightarrow> ParseResult"
  geturl :: "ParseResult \<Rightarrow> string"
  options :: flightsql_options

datatype query_arg = QueryStr string | QueryObj Query

text \<open>
  Lines 310-311 and 336-337: an argument that is not a \<open>Query\<close> is wrapped by
  \<open>Query(sql=query)\<close>, whose other two fields take their default \<open>None\<close>.
\<close>

definition as_query :: "query_arg \<Rightarrow> Query" where
  "as_query q =
     (case q of
        QueryObj q' \<Rightarrow> q'
      | QueryStr s \<Rightarrow> \<lparr> sql = s, context_path = None, references = None \<rparr>)"

text \<open>The block under the two \<open>async with\<close> of \<open>run_adbc_query\<close> (lines 322-326).\<close>

definition execute_and_fetch ::
  "('v, 't, 'df) driver \<Rightarrow> string \<Rightarrow> bool \<Rightarrow> (error + ('v, 'df) query_result) \<times> event list" where
  "execute_and_fetch drv stmt use_df =
     (case execute_fails drv stmt of
        Some e \<Rightarrow> (Inl e, [Execute stmt])
      | None \<Rightarrow>
          if use_df then
            (case fetch_df_result drv stmt of
               Inl e \<Rightarrow> (Inl e, [Execute stmt, FetchDf])
             | Inr df \<Rightarrow> (Inr (Frame df), [Execute stmt, FetchDf]))
          else
            (case fetchall_result drv stmt of
               Inl e \<Rightarrow> (Inl e, [Execute stmt, FetchAll])
             | Inr tuples \<Rightarrow>
                 (case convert_to_job_results (str_of_type drv) (description drv stmt) tuples of
                    Inl e \<Rightarrow> (Inl e, [Execute stmt, FetchAll])
                  | Inr jr \<Rightarrow> (Inr (Wrapper jr), [Execute stmt, FetchAll]))))"

text \<open>\<open>run_adbc_query\<close> (lines 307-326).\<close>

definition run_adbc_query ::
  "('v, 't, 'df) env \<Rightarrow> query_arg \<Rightarrow> bool \<Rightarrow> (error + ('v, 'df) query_result) \<times> event list" where
  "run_adbc_query env query use_df =
     (let query' = as_query query;
          uri = geturl env (convert_to_adbc_uri (urlparse env) (dremio_uri (config env))
                              (dremio_is_cloud (config env)));
          args = create_adbc_connection_options (options env) (dremio_pat (config env))
                   (dremio_project_id (config env))
      in adbc_connect (adbc env) uri (fst args) (snd args)
           (adbc_cursor (adbc env) (execute_and_fetch (adbc env) (sql query') use_df)))"

text \<open>\<open>run_query\<close> (lines 329-344).\<close>

definition run_query ::
  "('v, 't, 'df) env \<Rightarrow> query_arg \<Rightarrow> bool \<Rightarrow> bool
     \<Rightarrow> ((error + ('v, 'df) query_result) \<times> event list) option" where
  "run_query env query use_df use_adbc =
     (if use_adbc then Some (run_adbc_query env query use_df)
      else
        (let query' = as_query query;
             project_id = dremio_project_id (config env);
             endpoint = endpoint_of project_id
         in case sql_response (http env) (endpoint @ ''/sql'') query' of
              Inl e \<Rightarrow> Some (Inl e, [PostSql (endpoint @ ''/sql'') query'])
            | Inr qs \<Rightarrow>
                (case get_results (http env) (pandas_lib env) project_id (QsObj qs) use_df None None of
                   None \<Rightarrow> None
                 | Some (res, tr) \<Rightarrow> Some (res, PostSql (endpoint @ ''/sql'') query' # tr))))"

section \<open>Observations on runs\<close>

text \<open>The page-fetch requests among the events of a run.\<close>

fun is_page_fetch :: "event \<Rightarrow> bool" where
  "is_page_fetch (GetJobResults p ps) = True"
| "is_page_fetch e = False"

definition page_fetches :: "event list \<Rightarrow> event list" where
  "page_fetches tr = filter is_page_fetch tr"

text \<open>
  The reference the spec compares the concurrent retrieval with: fetch the pages one
  after the other in the order of the offsets, stop at the first failure, and list the
  pages in that order.
\<close>

fun sequential_fetch :: "(int \<Rightarrow> error + 'a) \<Rightarrow> int list \<Rightarrow> error + 'a list" where
  "sequential_fetch f [] = Inr []"
| "sequential_fetch f (off # offs) =
     (case f off of
        Inl e \<Rightarrow> Inl e
      | Inr p \<Rightarrow> (case sequential_fetch f offs of Inl e \<Rightarrow> Inl e | Inr ps \<Rightarrow> Inr (p # ps)))"

text \<open>A completion order of \<open>n\<close> concurrent tasks: each task completes exactly once.\<close>

definition is_completion_order :: "nat \<Rightarrow> nat list \<Rightarrow> bool" where
  "is_completion_order n order = (distinct order \<and> set order = {0..<n})"

text \<open>
  The host of a parsed URI, as the \<open>hostname\<close> property of \<open>urllib.parse\<close> computes it
  from the network location: what follows the last \<open>@\<close>, up to the port separator (or
  between the brackets of an IP literal), with ASCII letters before a zone separator in
  lower case; \<open>None\<close> when that is empty. \<open>convert_to_adbc_uri\<close> does not call it.
\<close>

definition lower_char :: "char \<Rightarrow> char" where
  "lower_char c =
     (case map_of (zip ''ABCDEFGHIJKLMNOPQRSTUVWXYZ'' ''abcdefghijklmnopqrstuvwxyz'') c of
        None \<Rightarrow> c
      | Some l \<Rightarrow> l)"

definition after_last :: "char \<Rightarrow> string \<Rightarrow> string" where
  "after_last c s = rev (takeWhile (\<lambda>x. x \<noteq> c) (rev s))"

definition hostname :: "ParseResult \<Rightarrow> string option" where
  "hostname u =
     (let hostinfo = after_last (CHR ''@'') (url_netloc u);
          h = (if CHR ''['' \<in> set hostinfo
               then takeWhile (\<lambda>x. x \<noteq> CHR '']'') (drop 1 (dropWhile (\<lambda>x. x \<noteq> CHR ''['') hostinfo))
               else takeWhile (\<lambda>x. x \<noteq> CHR '':'') hostinfo)
      in if h = [] then None
         else Some (map lower_char (takeWhile (\<lambda>x. x \<noteq> CHR ''%'') h)
                    @ dropWhile (\<lambda>x. x \<noteq> CHR ''%'') h))"

text \<open>The paths and the page request of a job, as \<open>get_results\<close> and \<open>_fetch_results\<close> build them.\<close>

abbreviation job_path :: "string option \<Rightarrow> qs_arg \<Rightarrow> string" where
  "job_path project_id qs \<equiv> endpoint_of project_id @ ''/job/'' @ job_id (as_submission qs)"

abbreviation results_path :: "string option \<Rightarrow> qs_arg \<Rightarrow> string" where
  "results_path project_id qs \<equiv>
     endpoint_of project_id @ ''/job/'' @ job_id (as_submission qs) @ ''/results''"

abbreviation page_request :: "string option \<Rightarrow> qs_arg \<Rightarrow> int \<Rightarrow> int \<Rightarrow> event" where
  "page_request project_id qs lmt off \<equiv>
     GetJobResults (results_path project_id qs) \<lparr> offset = Some off, limit = Some lmt \<rparr>"

abbreviation page_answer ::
  "'v transport \<Rightarrow> string option \<Rightarrow> qs_arg \<Rightarrow> int \<Rightarrow> int \<Rightarrow> error + 'v JobResults" where
  "page_answer w project_id qs lmt off \<equiv>
     results_response w (results_path project_id qs) \<lparr> offset = Some off, limit = Some lmt \<rparr>"

text \<open>
  The URI and the two option dicts \<open>run_adbc_query\<close> connects with, the outcome of that
  connection attempt, and the event it leaves.
\<close>

abbreviation adbc_uri :: "('v, 't, 'df) env \<Rightarrow> string" where
  "adbc_uri env \<equiv>
     geturl env (convert_to_adbc_uri (urlparse env) (dremio_uri (config env))
                   (dremio_is_cloud (config env)))"

abbreviation adbc_args :: "('v, 't, 'df) env \<Rightarrow> (string \<times> string) list \<times> (string \<times> string) list" where
  "adbc_args env \<equiv>
     create_adbc_connection_options (options env) (dremio_pat (config env))
       (dremio_project_id (config env))"

abbreviation connects :: "('v, 't, 'df) env \<Rightarrow> error option" where
  "connects env \<equiv>
     connect_fails (adbc env) (adbc_uri env) (fst (adbc_args env)) (snd (adbc_args env))"

abbreviation connect_event :: "('v, 't, 'df) env \<Rightarrow> event" where
  "connect_event env \<equiv> Connect (adbc_uri env) (fst (adbc_args env)) (snd (adbc_args env))"

section \<open>Concrete inputs\<close>

text \<open>
  A job snapshot as the REST interface returns it, with the fields that \<open>get_results\<close>
  reads left open and no other optional field present, and the job it deserialises to.
\<close>

definition snapshot :: "JobState \<Rightarrow> int field \<Rightarrow> string field \<Rightarrow> string field \<Rightarrow> JobSnapshot" where
  "snapshot st rc em cr =
     \<lparr> jobState = Present st, rowCount = rc, errorMessage = em, startedAt = Absent,
       endedAt = Absent, acceleration_json = Absent, queryType = Present REST,
       queueName = Absent, queueId = Absent, resourceSchedulingStartedAt = Absent,
       resourceSchedulingEndedAt = Absent, cancellationReason = cr \<rparr>"

definition job_of :: "JobState \<Rightarrow> int option \<Rightarrow> string option \<Rightarrow> string option \<Rightarrow> Job" where
  "job_of st rc em cr =
     \<lparr> job_state = st, row_count = rc, error_message = em, started_at = None,
       ended_at = None, acceleration = None, query_type = REST, queue_name = None,
       queue_id = None, resource_scheduling_started_at = None,
       resource_scheduling_ended_at = None, cancellation_reason = cr \<rparr>"

text \<open>
  A service holding \<open>n_rows\<close> rows of one integer column \<open>n\<close>, row \<open>i\<close> holding the value
  \<open>i\<close>: the page at \<open>offset\<close> with \<open>limit\<close> holds the rows from \<open>offset\<close> up to
  \<open>offset + limit\<close> or \<open>n_rows\<close>, whichever comes first.
\<close>

definition page_of :: "int \<Rightarrow> int \<Rightarrow> int \<Rightarrow> int JobResults" where
  "page_of n_rows lmt off =
     \<lparr> results_row_count = min lmt (n_rows - off),
       result_schema = Some [\<lparr> schema_name = ''n'', schema_type = \<lparr> type_name = ''INTEGER'' \<rparr> \<rparr>],
       rows = map (\<lambda>i. [(''n'', off + int i)]) [0..<nat (min lmt (n_rows - off))] \<rparr>"

definition numbered_page :: "int \<Rightarrow> JobResultsParams \<Rightarrow> error + int JobResults" where
  "numbered_page n_rows ps =
     (case offset ps of
        None \<Rightarrow> Inl (TransportError ''bad request'')
      | Some off \<Rightarrow>
          (case limit ps of
             None \<Rightarrow> Inl (TransportError ''bad request'')
           | Some lmt \<Rightarrow> Inr (page_of n_rows lmt off)))"

definition service :: "(error + JobSnapshot) list \<Rightarrow> int \<Rightarrow> nat list \<Rightarrow> int transport" where
  "service snaps n_rows order =
     \<lparr> job_snapshots = snaps,
       results_response = (\<lambda>p. numbered_page n_rows),
       sql_response = (\<lambda>p q. Inr \<lparr> job_id = ''j1'' \<rparr>),
       completion_order = order \<rparr>"

text \<open>A table library that keeps the rows and the column names it is given.\<close>

definition table_lib :: "(int, int row list \<times> string list) pandas" where
  "table_lib =
     \<lparr> DataFrame_empty = ([], []),
       DataFrame_of = (\<lambda>data columns. (data, columns)),
       to_datetime_column = (\<lambda>df name. Inr df) \<rparr>"

text \<open>A parser that answers with the components of \<open>https://api.dremio.cloud/v0\<close>.\<close>

definition cloud_parse :: "string \<Rightarrow> ParseResult" where
  "cloud_parse uri =
     \<lparr> url_scheme = ''https'', url_netloc = ''api.dremio.cloud'', url_path = ''/v0'',
       url_params = [], url_query = [], url_fragment = [] \<rparr>"

text \<open>A parser that answers with the components of \<open>https://user@api.dremio.cloud:443/v0\<close>.\<close>

definition userinfo_parse :: "string \<Rightarrow> ParseResult" where
  "userinfo_parse uri =
     \<lparr> url_scheme = ''https'', url_netloc = ''user@api.dremio.cloud:443'', url_path = ''/v0'',
       url_params = [], url_query = [], url_fragment = [] \<rparr>"

text \<open>
  A driver whose five fallible calls have the given outcomes, with the given column
  descriptors and rows, and an environment around it.
\<close>

definition driver_of ::
  "error option \<Rightarrow> error option \<Rightarrow> error option \<Rightarrow> error option \<Rightarrow> error option
     \<Rightarrow> (string \<times> string) list \<Rightarrow> int list list
     \<Rightarrow> (int, string, int row list \<times> string list) driver" where
  "driver_of conn cur exec cur_close conn_close desc tuples =
     \<lparr> connect_fails = (\<lambda>u d c. conn),
       cursor_fails = cur,
       execute_fails = (\<lambda>stmt. exec),
       fetch_df_result = (\<lambda>stmt. Inr ([], map fst desc)),
       fetchall_result = (\<lambda>stmt. Inr tuples),
       description = (\<lambda>stmt. desc),
       str_of_type = id,
       cursor_close_fails = cur_close,
       conn_close_fails = conn_close \<rparr>"

definition env_of ::
  "(int, string, int row list \<times> string list) driver
     \<Rightarrow> (int, string, int row list \<times> string list) env" where
  "env_of drv =
     \<lparr> http = service [] 0 [],
       pandas_lib = table_lib,
       adbc = drv,
       config = \<lparr> dremio_uri = ''https://api.dremio.cloud/v0'', dremio_pat = ''token'',
                  dremio_project_id = None, dremio_is_cloud = True \<rparr>,
       urlparse = cloud_parse,
       geturl = (\<lambda>u. url_scheme u @ ''://'' @ url_netloc u @ url_path u),
       options = \<lparr> AUTHORIZATION_HEADER = ''adbc.flight.sql.authorization_header'',
                   RPC_CALL_HEADER_PREFIX = ''adbc.flight.sql.rpc.call_header.'',
                   OPTION_SESSION_OPTION_PREFIX = ''adbc.flight.sql.session.option.'' \<rparr> \<rparr>"

section \<open>Auxiliary lemmas\<close>

subsection \<open>\<open>range\<close> with a positive step\<close>

lemma range_up_closed:
  "0 < step \<Longrightarrow> range_up i stop step = map (\<lambda>k. i + int k * step) [0..<nat ((stop - i + step - 1) div step)]"
proof (induction i stop step rule: range_up.induct)
  case (1 i stop step)
  show ?case
  proof (cases "i < stop")
    case True
    have pos: "0 \<le> (stop - i - 1) div step" using True 1(2) by (simp add: pos_imp_zdiv_nonneg_iff)
    have "(stop - i + step - 1) div step = (stop - i - 1) div step + 1"
    proof -
      have "stop - i + step - 1 = (stop - i - 1) + step" by simp
      then show ?thesis using 1(2) by (simp only: div_add_self2) 
    qed
    then have n: "nat ((stop - i + step - 1) div step) = Suc (nat ((stop - (i + step) + step - 1) div step))"
      using pos by (simp add: algebra_simps nat_add_distrib)
    have "range_up i stop step = i # range_up (i + step) stop step"
      using True 1(2) by simp
    also have "\<dots> = i # map (\<lambda>k. (i + step) + int k * step) [0..<nat ((stop - (i + step) + step - 1) div step)]"
      using 1(1) True 1(2) by simp
    also have "\<dots> = map (\<lambda>k. i + int k * step) [0..<nat ((stop - i + step - 1) div step)]"
      unfolding n by (simp add: map_upt_Suc algebra_simps del: upt_Suc)
    finally show ?thesis .
  next
    case False
    then have "(stop - i + step - 1) div step \<le> (step - 1) div step"
      using 1(2) by (intro zdiv_mono1) simp_all
    also have "(step - 1) div step = 0"
      using 1(2) by simp
    finally show ?thesis using False by simp
  qed
qed

lemma complete_tasks_all_ok:
  "length slots = length rs \<Longrightarrow>
   complete_tasks order (map Inr rs) slots =
     Inr (map (\<lambda>i. if i \<in> set order then Some (rs ! i) else slots ! i) [0..<length rs])"
proof (induction order arbitrary: slots)
  case Nil
  then have "map (\<lambda>i. slots ! i) [0..<length rs] = slots"
    using map_nth [of slots] by simp
  then show ?case by simp
next
  case (Cons i order)
  show ?case
  proof (cases "i < length rs")
    case True
    have "complete_tasks (i # order) (map Inr rs) slots =
            complete_tasks order (map Inr rs) (slots[i := Some (rs ! i)])"
      using True by simp
    also have "\<dots> = Inr (map (\<lambda>k. if k \<in> set order then Some (rs ! k)
                                   else slots[i := Some (rs ! i)] ! k) [0..<length rs])"
      using Cons.prems by (intro Cons.IH) simp
    also have "\<dots> = Inr (map (\<lambda>k. if k \<in> set (i # order) then Some (rs ! k) else slots ! k)
                            [0..<length rs])"
      using Cons.prems by (auto simp: nth_list_update)
    finally show ?thesis .
  next
    case False
    then show ?thesis using Cons by auto
  qed
qed

lemma collect_slots_Some: "collect_slots (map Some rs) = Some rs"
  by (induction rs) simp_all

lemma run_in_parallel_all_ok:
  assumes "{0..<length rs} \<subseteq> set order"
  shows "run_in_parallel order (map Inr rs) = Some (Inr rs)"
proof -
  have "complete_tasks order (map Inr rs) (replicate (length rs) None) =
          Inr (map (\<lambda>i. if i \<in> set order then Some (rs ! i) else replicate (length rs) None ! i)
                 [0..<length rs])"
    by (rule complete_tasks_all_ok) simp
  also have "\<dots> = Inr (map (\<lambda>i. Some (rs ! i)) [0..<length rs])"
    using assms by (auto simp: subset_iff)
  also have "map (\<lambda>i. Some (rs ! i)) [0..<length rs] = map Some rs"
    by (rule nth_equalityI) simp_all
  finally show ?thesis
    by (simp add: run_in_parallel_def collect_slots_Some)
qed

lemma complete_tasks_Inr_tasks:
  "complete_tasks order tasks slots = Inr slots' \<Longrightarrow> i \<in> set order \<Longrightarrow> i < length tasks
     \<Longrightarrow> \<exists>r. tasks ! i = Inr r"
proof (induction order arbitrary: slots)
  case Nil
  then show ?case by simp
next
  case (Cons k order)
  then show ?case
    by (cases "k < length tasks"; cases "tasks ! k") (auto split: if_splits)
qed

lemma all_Inr_map: "(\<forall>i < length tasks. \<exists>r. tasks ! i = Inr r) \<Longrightarrow> \<exists>rs. tasks = map Inr rs"
proof (induction tasks)
  case Nil
  then show ?case by simp
next
  case (Cons t tasks)
  from Cons.prems [rule_format, of 0] obtain r where r: "t = Inr r" by auto
  have "\<forall>i < length tasks. \<exists>r. tasks ! i = Inr r"
  proof (intro allI impI)
    fix i assume "i < length tasks"
    then show "\<exists>r. tasks ! i = Inr r"
      using Cons.prems [rule_format, of "Suc i"] by simp
  qed
  with Cons.IH obtain rs where "tasks = map Inr rs" by blast
  with r have "t # tasks = map Inr (r # rs)" by simp
  then show ?case by (rule exI)
qed

lemma run_in_parallel_Inr:
  assumes "{0..<length tasks} \<subseteq> set order"
  shows "run_in_parallel order tasks = Some (Inr rs) \<longleftrightarrow> tasks = map Inr rs"
proof
  assume run: "run_in_parallel order tasks = Some (Inr rs)"
  then obtain slots' where "complete_tasks order tasks (replicate (length tasks) None) = Inr slots'"
    by (auto simp: run_in_parallel_def split: sum.splits)
  then have "\<forall>i < length tasks. \<exists>r. tasks ! i = Inr r"
    using assms by (auto intro: complete_tasks_Inr_tasks)
  then obtain rs' where rs': "tasks = map Inr rs'" using all_Inr_map by blast
  with assms have "run_in_parallel order tasks = Some (Inr rs')"
    using run_in_parallel_all_ok by simp
  with run rs' show "tasks = map Inr rs" by simp
next
  assume "tasks = map Inr rs"
  with assms show "run_in_parallel order tasks = Some (Inr rs)"
    using run_in_parallel_all_ok by simp
qed

lemma sequential_fetch_all_ok: "map f offs = map Inr ps \<Longrightarrow> sequential_fetch f offs = Inr ps"
  by (induction offs arbitrary: ps) auto

lemma sequential_fetch_InrD: "sequential_fetch f offs = Inr ps \<Longrightarrow> map f offs = map Inr ps"
  by (induction offs arbitrary: ps) (auto split: sum.splits)

lemma sequential_fetch_Inr: "sequential_fetch f offs = Inr ps \<longleftrightarrow> map f offs = map Inr ps"
  by (rule iffI) (erule sequential_fetch_InrD, erule sequential_fetch_all_ok)

subsection \<open>The branches of \<open>get_results\<close>\<close>

lemma poll_no_page_fetch: "poll snaps p = Some (r, tr) \<Longrightarrow> page_fetches tr = []"
  by (induction snaps arbitrary: r tr)
     (auto simp: page_fetches_def split: sum.splits if_splits option.splits)

lemma page_fetches_requests:
  "page_fetches tr = [] \<Longrightarrow>
   page_fetches (tr @ map (\<lambda>off. GetJobResults p (f off)) offs) = map (\<lambda>off. GetJobResults p (f off)) offs"
  by (induction offs) (simp_all add: page_fetches_def)


lemma py_range_pos: "0 < R \<Longrightarrow> py_range 0 R (min 500 R) = Inr (range_up 0 R (min 500 R))"
  by (simp add: py_range_def)

lemma get_results_fetch:
  assumes "poll (job_snapshots w) (job_path pid qs) = Some (Inr job, tr)"
    and "Job_succeeded job" and "row_count job = Some R" and "0 < R"
  shows "get_results w pd pid qs use_df uri pat =
     (case run_in_parallel (completion_order w)
             (map (page_answer w pid qs (min 500 R)) (range_up 0 R (min 500 R))) of
        None \<Rightarrow> None
      | Some (Inl e) \<Rightarrow>
          Some (Inl e, tr @ map (page_request pid qs (min 500 R)) (range_up 0 R (min 500 R)))
      | Some (Inr jr) \<Rightarrow>
          if use_df then
            (case to_frame pd jr of
               Inl e \<Rightarrow> Some (Inl e, tr @ map (page_request pid qs (min 500 R)) (range_up 0 R (min 500 R)))
             | Inr df \<Rightarrow> Some (Inr (Frame df), tr @ map (page_request pid qs (min 500 R)) (range_up 0 R (min 500 R))))
          else Some (Inr (Wrapper jr), tr @ map (page_request pid qs (min 500 R)) (range_up 0 R (min 500 R))))"
proof -
  have nz: "(R = 0) = False" using assms(4) by simp
  have rng: "py_range 0 R (min 500 R) = Inr (range_up 0 R (min 500 R))"
    using assms(4) by (rule py_range_pos)
  show ?thesis
    unfolding get_results_def Let_def
    apply (simp only: assms(1) option.case prod.case sum.case)
    apply (simp only: assms(2) assms(3) not_True_eq_False if_False option.case nz rng sum.case)
    apply (simp only: fetch_results_def Let_def map_map comp_def fst_conv snd_conv)
    done
qed

lemma ceiling_div: "0 < (P::int) \<Longrightarrow> \<lceil>real_of_int R / real_of_int P\<rceil> = (R + P - 1) div P"
proof -
  assume P: "0 < P"
  define q where "q = (R - 1) div P"
  define r where "r = (R - 1) mod P"
  have r: "0 \<le> r" "r < P" using P by (simp_all add: r_def)
  have R: "R - 1 = P * q + r" by (simp add: q_def r_def)
  have "- R = P * (- q - 1) + (P - r - 1)"
    using R by (simp add: algebra_simps)
  then have neg: "(- R) div P = - q - 1"
    using r int_div_pos_eq [of "- R" P "- q - 1" "P - r - 1"] by simp
  have "R + P - 1 = P * (q + 1) + r"
    using R by (simp add: algebra_simps)
  then have pos: "(R + P - 1) div P = q + 1"
    using r int_div_pos_eq [of "R + P - 1" P "q + 1" r] by simp
  have "\<lceil>real_of_int R / real_of_int P\<rceil> = - ((- R) div P)"
    by (rule ceiling_divide_eq_div)
  then show ?thesis using neg pos by simp
qed

lemma sum_rows_range_up:
  "0 < P \<Longrightarrow> i \<le> R \<Longrightarrow> sum_list (map (\<lambda>off. min P (R - off)) (range_up i R P)) = R - i"
proof (induction i R P rule: range_up.induct)
  case (1 i stop step)
  show ?case
  proof (cases "i < stop")
    case True
    note lt = this
    have unfold: "range_up i stop step = i # range_up (i + step) stop step"
      using lt 1(2) by simp
    show ?thesis
    proof (cases "i + step \<le> stop")
      case True
      have "sum_list (map (\<lambda>off. min step (stop - off)) (range_up (i + step) stop step))
              = stop - (i + step)"
        using 1(1) 1(2) lt True by simp
      then show ?thesis using True unfold by simp
    next
      case False
      then have "range_up (i + step) stop step = []" by simp
      then show ?thesis using False unfold by simp
    qed
  next
    case False
    then show ?thesis using 1(3) by simp
  qed
qed

lemma int_length_concat: "int (length (concat xss)) = sum_list (map (\<lambda>xs. int (length xs)) xss)"
  by (induction xss) simp_all

lemma get_results_failed:
  assumes "poll (job_snapshots w) (job_path pid qs) = Some (Inr job, tr)"
    and "\<not> Job_succeeded job"
  shows "get_results w pd pid qs use_df uri pat =
           Some (Inl (RuntimeError (''Job '' @ job_id (as_submission qs) @ '' failed: '' @ emsg job)), tr)"
proof -
  have ns: "Job_succeeded job = False" using assms(2) by simp
  show ?thesis
    unfolding get_results_def Let_def
    apply (simp only: assms(1) option.case prod.case sum.case)
    apply (simp only: ns not_False_eq_True if_True)
    done
qed

lemma get_results_zero:
  assumes "poll (job_snapshots w) (job_path pid qs) = Some (Inr job, tr)"
    and "Job_succeeded job" and "row_count job = Some 0"
  shows "get_results w pd pid qs use_df uri pat =
           Some (Inr (if use_df then Frame (DataFrame_empty pd) else Wrapper []), tr)"
  unfolding get_results_def Let_def
  apply (simp only: assms(1) option.case prod.case sum.case)
  apply (simp only: assms(2) assms(3) not_True_eq_False if_False option.case)
  apply (simp only: refl if_True)
  done

lemma poll_append:
  assumes "\<forall>s \<in> set pre. \<exists>j. client_get_job s = Inr j \<and> \<not> Job_done j"
    and "client_get_job t = Inr job" and "Job_done job"
  shows "\<exists>tr. poll (pre @ t # rest) p = Some (Inr job, tr)"
  using assms(1)
proof (induction pre)
  case Nil
  then show ?case using assms(2,3) by simp
next
  case (Cons s pre)
  then obtain tr where "poll (pre @ t # rest) p = Some (Inr job, tr)" by auto
  moreover from Cons.prems obtain j where "client_get_job s = Inr j" "\<not> Job_done j" by auto
  ultimately show ?case by simp
qed

lemma poll_example:
  "optional (Some 0) rc = Inr n \<Longrightarrow>
   poll [Inr (snapshot RUNNING Absent Absent Absent), Inr (snapshot COMPLETED rc Absent Absent)] p =
     Some (Inr (job_of COMPLETED n None None), [GetJob p, Sleep, GetJob p])"
  by (simp add: snapshot_def job_of_def client_get_job_def deser_Job_def and_then_def
        required_def optional_def Job_done_def)

lemma deser_Job_absent_row_count:
  "rowCount snap = Absent \<Longrightarrow> deser_Job snap = Inr job \<Longrightarrow> row_count job = Some 0"
  by (auto simp: deser_Job_def and_then_def optional_def split: sum.splits)

lemma deser_Job_state:
  "deser_Job snap = Inr job \<Longrightarrow> jobState snap = Present (job_state job)"
  by (cases "jobState snap") (auto simp: deser_Job_def and_then_def required_def split: sum.splits)

lemma and_then_Inr: "and_then r f = Inr y \<longleftrightarrow> (\<exists>v. r = Inr v \<and> f v = Inr y)"
  by (cases r) (simp_all add: and_then_def)

lemma optional_Invalid: "optional d Invalid = Inl ValidationError"
  by (simp add: optional_def)

lemma deser_Job_validates:
  "deser_Job s = Inr job \<Longrightarrow>
   startedAt s \<noteq> Invalid \<and> endedAt s \<noteq> Invalid
   \<and> resourceSchedulingStartedAt s \<noteq> Invalid \<and> resourceSchedulingEndedAt s \<noteq> Invalid"
  by (auto simp: deser_Job_def and_then_Inr optional_Invalid)

subsection \<open>Pages\<close>

lemma page_count:
  "0 < R \<Longrightarrow> nat \<lceil>real_of_int R / real_of_int (min 500 R)\<rceil> = nat ((R - 0 + min 500 R - 1) div min 500 R)"
  by (simp add: ceiling_div)

lemma page_offsets:
  assumes "0 < R"
  shows "range_up 0 R (min 500 R)
           = map (\<lambda>k. int k * min 500 R) [0..<nat \<lceil>real_of_int R / real_of_int (min 500 R)\<rceil>]"
proof -
  have "0 < min 500 R" using assms by simp
  then have "range_up 0 R (min 500 R)
               = map (\<lambda>k. 0 + int k * min 500 R) [0..<nat ((R - 0 + min 500 R - 1) div min 500 R)]"
    by (rule range_up_closed)
  then show ?thesis using page_count [OF assms] by simp
qed

lemma sorted_page_offsets:
  assumes "0 < (P::int)"
  shows "sorted_wrt (<) (map (\<lambda>k. int k * P) [0..<n])"
  using assms by (simp add: sorted_wrt_map sorted_wrt_iff_nth_less)

lemma poll_service_example:
  "poll (job_snapshots (service [Inr (snapshot RUNNING Absent Absent Absent),
                                 Inr (snapshot COMPLETED (Present 1200) Absent Absent)] 1200 order))
     (job_path None (QsStr ''j1''))
   = Some (Inr (job_of COMPLETED (Some 1200) None None),
           [GetJob ''/api/v3/job/j1'', Sleep, GetJob ''/api/v3/job/j1''])"
  using poll_example [of "Present 1200" "Some 1200" "''/api/v3/job/j1''"]
  by (simp add: service_def optional_def endpoint_of_def as_submission_def del: poll.simps)

lemma completion_order_example: "is_completion_order 3 [2, 0, 1]"
  by (auto simp: is_completion_order_def)

lemma numbered_page_rows:
  "k < 3 \<Longrightarrow>
   \<exists>p. page_answer (service snaps 1200 order) None (QsStr ''j1'') 500 (int k * 500) = Inr p
        \<and> int (length (rows p)) = min 500 (1200 - int k * 500)"
  by (simp add: service_def numbered_page_def page_of_def)

subsection \<open>Rows as dicts\<close>

lemma map_of_dict_set: "map_of (dict_set k v d) = (map_of d)(k \<mapsto> v)"
  by (induction d) (auto simp: fun_eq_iff)

lemma convert_row_from_ok:
  "ix + length cols \<le> length rs \<Longrightarrow> \<exists>d'. convert_row_from rs ix cols d = Inr d'"
  by (induction cols arbitrary: ix d) auto

lemma convert_row_from_lookup:
  assumes "convert_row_from rs ix cols d = Inr d'"
    and "i < length cols"
    and "\<forall>j. i < j \<and> j < length cols \<longrightarrow> schema_name (rs ! (ix + j)) \<noteq> schema_name (rs ! (ix + i))"
  shows "map_of d' (schema_name (rs ! (ix + i))) = Some (cols ! i)"
  using assms
proof (induction cols arbitrary: ix d i)
  case Nil
  then show ?case by simp
next
  case (Cons c cols)
  from Cons.prems(1) have ix: "ix < length rs"
    and rest: "convert_row_from rs (Suc ix) cols (dict_set (schema_name (rs ! ix)) c d) = Inr d'"
    by (auto split: if_splits)
  show ?case
  proof (cases i)
    case 0
    have keep: "map_of d' k = Some v"
      if "convert_row_from rs jx cs e = Inr d'" "map_of e k = Some v"
         "\<forall>j < length cs. schema_name (rs ! (jx + j)) \<noteq> k" for jx cs e k v
      using that
    proof (induction cs arbitrary: jx e)
      case Nil
      then show ?case by simp
    next
      case (Cons a cs)
      from Cons.prems(1) have
        r: "convert_row_from rs (Suc jx) cs (dict_set (schema_name (rs ! jx)) a e) = Inr d'"
        by (auto split: if_splits)
      from Cons.prems(3) have ne: "schema_name (rs ! jx) \<noteq> k" by force
      have "map_of (dict_set (schema_name (rs ! jx)) a e) k = Some v"
        using Cons.prems(2) ne by (simp add: map_of_dict_set)
      moreover have "\<forall>j < length cs. schema_name (rs ! (Suc jx + j)) \<noteq> k"
        using Cons.prems(3) by force
      ultimately show ?case using Cons.IH r by blast
    qed
    have "map_of (dict_set (schema_name (rs ! ix)) c d) (schema_name (rs ! ix)) = Some c"
      by (simp add: map_of_dict_set)
    moreover have "\<forall>j < length cols. schema_name (rs ! (Suc ix + j)) \<noteq> schema_name (rs ! ix)"
      using Cons.prems(3) 0 by force
    ultimately have "map_of d' (schema_name (rs ! ix)) = Some c"
      using keep rest by blast
    then show ?thesis using 0 by simp
  next
    case (Suc i')
    have "map_of d' (schema_name (rs ! (Suc ix + i'))) = Some (cols ! i')"
    proof (rule Cons.IH [OF rest])
      show "i' < length cols" using Cons.prems(2) Suc by simp
      show "\<forall>j. i' < j \<and> j < length cols \<longrightarrow>
              schema_name (rs ! (Suc ix + j)) \<noteq> schema_name (rs ! (Suc ix + i'))"
        using Cons.prems(3) Suc by force
    qed
    then show ?thesis using Suc by simp
  qed
qed

lemma map_fst_dict_set:
  "map fst (dict_set k v d) = (if k \<in> set (map fst d) then map fst d else map fst d @ [k])"
  by (induction d) (auto simp: rev_image_eqI)

lemma keys_dict_set: "fst ` set (dict_set k v d) = insert k (fst ` set d)"
proof -
  have "set (map fst (dict_set k v d)) = insert k (set (map fst d))"
    unfolding map_fst_dict_set by auto
  then show ?thesis by simp
qed

lemma convert_row_from_keys:
  "convert_row_from rs ix cols d = Inr d' \<Longrightarrow>
   fst ` set d' = fst ` set d \<union> schema_name ` set (take (length cols) (drop ix rs))"
proof (induction cols arbitrary: ix d)
  case Nil
  then show ?case by simp
next
  case (Cons c cols)
  from Cons.prems have ix: "ix < length rs"
    and rest: "convert_row_from rs (Suc ix) cols (dict_set (schema_name (rs ! ix)) c d) = Inr d'"
    by (auto split: if_splits)
  have "drop ix rs = rs ! ix # drop (Suc ix) rs"
    using ix by (simp add: Cons_nth_drop_Suc)
  then have "take (length (c # cols)) (drop ix rs) = rs ! ix # take (length cols) (drop (Suc ix) rs)"
    by simp
  then show ?case
    using Cons.IH [OF rest] by (simp add: keys_dict_set)
qed

lemma convert_rows_ok:
  assumes "\<forall>r \<in> set tuples. length r \<le> length rs"
  shows "\<exists>ds. convert_rows rs tuples = Inr ds \<and> length ds = length tuples
              \<and> (\<forall>i < length tuples. convert_row rs (tuples ! i) = Inr (ds ! i))"
  using assms
proof (induction tuples)
  case Nil
  then show ?case by simp
next
  case (Cons r tuples)
  then obtain ds where ds: "convert_rows rs tuples = Inr ds" "length ds = length tuples"
      "\<forall>i < length tuples. convert_row rs (tuples ! i) = Inr (ds ! i)"
    by auto
  from Cons.prems have "0 + length r \<le> length rs" by simp
  then obtain d where d: "convert_row rs r = Inr d"
    unfolding convert_row_def using convert_row_from_ok by blast
  have "\<forall>i < length (r # tuples). convert_row rs ((r # tuples) ! i) = Inr ((d # ds) ! i)"
    using d ds(3) by (auto simp: nth_Cons split: nat.splits)
  then show ?case using d ds(1,2) by (intro exI [of _ "d # ds"]) simp
qed

lemma convert_to_job_results_page:
  assumes "\<forall>r \<in> set tuples. length r \<le> length schema"
  shows "\<exists>rsrows.
           convert_to_job_results str schema tuples
             = Inr [\<lparr> results_row_count = int (length tuples),
                      result_schema = Some (result_schema_of str schema),
                      rows = rsrows \<rparr>]
           \<and> length rsrows = length tuples
           \<and> (\<forall>i < length tuples.
                 fst ` set (rsrows ! i) = fst ` set (take (length (tuples ! i)) schema)
                 \<and> (\<forall>ix < length (tuples ! i).
                      (\<forall>j. ix < j \<and> j < length (tuples ! i) \<longrightarrow> fst (schema ! j) \<noteq> fst (schema ! ix))
                      \<longrightarrow> map_of (rsrows ! i) (fst (schema ! ix)) = Some (tuples ! i ! ix)))"
proof -
  define rs where "rs = result_schema_of str schema"
  have lrs: "length rs = length schema" by (simp add: rs_def result_schema_of_def)
  have name: "schema_name (rs ! j) = fst (schema ! j)" if "j < length schema" for j
    using that by (simp add: rs_def result_schema_of_def)
  from assms lrs obtain ds where ds: "convert_rows rs tuples = Inr ds" "length ds = length tuples"
      "\<forall>i < length tuples. convert_row rs (tuples ! i) = Inr (ds ! i)"
    using convert_rows_ok [of tuples rs] by auto
  have res: "convert_to_job_results str schema tuples
               = Inr [\<lparr> results_row_count = int (length tuples), result_schema = Some rs, rows = ds \<rparr>]"
    using ds(1) by (simp add: convert_to_job_results_def rs_def)
  have look: "fst ` set (ds ! i) = fst ` set (take (length (tuples ! i)) schema)
              \<and> (\<forall>ix < length (tuples ! i).
                    (\<forall>j. ix < j \<and> j < length (tuples ! i) \<longrightarrow> fst (schema ! j) \<noteq> fst (schema ! ix))
                    \<longrightarrow> map_of (ds ! i) (fst (schema ! ix)) = Some (tuples ! i ! ix))"
    if i: "i < length tuples" for i
  proof (intro conjI allI impI)
    have row: "convert_row_from rs 0 (tuples ! i) [] = Inr (ds ! i)"
      using ds(3) i by (simp add: convert_row_def)
    have wide: "length (tuples ! i) \<le> length schema" using assms i by simp
    have "fst ` set (ds ! i) = schema_name ` set (take (length (tuples ! i)) rs)"
      using convert_row_from_keys [OF row] by simp
    also have "\<dots> = set (map schema_name (take (length (tuples ! i)) rs))"
      by simp
    also have "map schema_name (take (length (tuples ! i)) rs)
                 = map fst (take (length (tuples ! i)) schema)"
      by (simp add: rs_def result_schema_of_def take_map comp_def)
    also have "set (map fst (take (length (tuples ! i)) schema))
                 = fst ` set (take (length (tuples ! i)) schema)"
      by simp
    finally show "fst ` set (ds ! i) = fst ` set (take (length (tuples ! i)) schema)" .
    fix ix
    assume ix: "ix < length (tuples ! i)"
      and last: "\<forall>j. ix < j \<and> j < length (tuples ! i) \<longrightarrow> fst (schema ! j) \<noteq> fst (schema ! ix)"
    have "\<forall>j. ix < j \<and> j < length (tuples ! i)
            \<longrightarrow> schema_name (rs ! (0 + j)) \<noteq> schema_name (rs ! (0 + ix))"
      using last ix wide by (simp add: name)
    then have "map_of (ds ! i) (schema_name (rs ! (0 + ix))) = Some (tuples ! i ! ix)"
      using row ix by (intro convert_row_from_lookup)
    then show "map_of (ds ! i) (fst (schema ! ix)) = Some (tuples ! i ! ix)"
      using ix wide by (simp add: name)
  qed
  show ?thesis
    using res ds(2) look unfolding rs_def by (intro exI [of _ ds]) simp
qed

subsection \<open>The direct-protocol path\<close>

lemma run_adbc_query_unfold:
  "run_adbc_query env q use_df =
     adbc_connect (adbc env) (adbc_uri env) (fst (adbc_args env)) (snd (adbc_args env))
       (adbc_cursor (adbc env) (execute_and_fetch (adbc env) (sql (as_query q)) use_df))"
  by (simp add: run_adbc_query_def Let_def)

lemma execute_and_fetch_events:
  "set (snd (execute_and_fetch drv stmt use_df)) \<subseteq> {Execute stmt, FetchDf, FetchAll}"
  by (auto simp: execute_and_fetch_def split: option.splits sum.splits)

lemma execute_and_fetch_no_close:
  "CursorClose \<notin> set (snd (execute_and_fetch drv stmt use_df))"
  "ConnClose \<notin> set (snd (execute_and_fetch drv stmt use_df))"
  using execute_and_fetch_events [of drv stmt use_df] by auto

lemma execute_and_fetch_failure:
  "execute_fails drv stmt = Some e \<Longrightarrow> fst (execute_and_fetch drv stmt use_df) = Inl e"
  by (simp add: execute_and_fetch_def)

lemma env_of_driver [simp]:
  "connects (env_of (driver_of conn cur exec cur_close conn_close desc tuples)) = conn"
  "cursor_fails (adbc (env_of (driver_of conn cur exec cur_close conn_close desc tuples))) = cur"
  "execute_fails (adbc (env_of (driver_of conn cur exec cur_close conn_close desc tuples))) stmt = exec"
  "cursor_close_fails (adbc (env_of (driver_of conn cur exec cur_close conn_close desc tuples))) = cur_close"
  "conn_close_fails (adbc (env_of (driver_of conn cur exec cur_close conn_close desc tuples))) = conn_close"
  "fetchall_result (adbc (env_of (driver_of conn cur exec cur_close conn_close desc tuples))) stmt = Inr tuples"
  "description (adbc (env_of (driver_of conn cur exec cur_close conn_close desc tuples))) stmt = desc"
  "str_of_type (adbc (env_of (driver_of conn cur exec cur_close conn_close desc tuples))) = id"
  by (simp_all add: env_of_def driver_of_def)

subsection \<open>All pages answered\<close>

lemma get_results_all_pages:
  fixes R :: int
  assumes poll: "poll (job_snapshots w) (job_path pid qs) = Some (Inr job, tr)"
    and succ: "Job_succeeded job"
    and rc: "row_count job = Some R"
    and pos: "0 < R"
    and order: "is_completion_order (nat \<lceil>real_of_int R / real_of_int (min 500 R)\<rceil>)
                  (completion_order w)"
    and pages: "\<forall>k < nat \<lceil>real_of_int R / real_of_int (min 500 R)\<rceil>.
                  \<exists>p. page_answer w pid qs (min 500 R) (int k * min 500 R) = Inr p
                       \<and> int (length (rows p)) = min (min 500 R) (R - int k * min 500 R)"
  shows "\<exists>jr tr'.
           get_results w pd pid qs False uri pat = Some (Inr (Wrapper jr), tr')
           \<and> (\<exists>res. get_results w pd pid qs True uri pat = Some (res, tr'))
           \<and> page_fetches tr'
               = map (\<lambda>k. page_request pid qs (min 500 R) (int k * min 500 R))
                   [0..<nat \<lceil>real_of_int R / real_of_int (min 500 R)\<rceil>]
           \<and> length (page_fetches tr') = nat \<lceil>real_of_int R / real_of_int (min 500 R)\<rceil>
           \<and> int (length (concat (map rows jr))) = R"
proof -
  define P where "P = min 500 R"
  define n where "n = nat \<lceil>real_of_int R / real_of_int P\<rceil>"
  define offs where "offs = range_up 0 R P"
  have P: "0 < P" using pos by (simp add: P_def)
  have offs: "offs = map (\<lambda>k. int k * P) [0..<n]"
    unfolding offs_def n_def P_def using pos by (rule page_offsets)
  have len: "length offs = n" by (simp add: offs)
  define tasks where "tasks = map (page_answer w pid qs P) offs"
  have "\<forall>i < length tasks. \<exists>r. tasks ! i = Inr r"
    using pages by (auto simp: tasks_def offs P_def n_def)
  then obtain jr where jr: "tasks = map Inr jr" using all_Inr_map by blast
  have ljr: "length jr = n" using jr len by (metis length_map tasks_def)
  have "{0..<length jr} \<subseteq> set (completion_order w)"
    using order ljr by (simp add: is_completion_order_def n_def P_def)
  then have run: "run_in_parallel (completion_order w) tasks = Some (Inr jr)"
    unfolding jr by (rule run_in_parallel_all_ok)
  define tr' where "tr' = tr @ map (page_request pid qs P) offs"
  have g: "get_results w pd pid qs use_df uri pat =
             (if use_df then
                (case to_frame pd jr of
                   Inl e \<Rightarrow> Some (Inl e, tr')
                 | Inr df \<Rightarrow> Some (Inr (Frame df), tr'))
              else Some (Inr (Wrapper jr), tr'))" for use_df
    using get_results_fetch [OF poll succ rc pos, of pd use_df uri pat] run
    by (simp only: tasks_def offs_def P_def tr'_def option.case sum.case)
  have g1: "get_results w pd pid qs False uri pat = Some (Inr (Wrapper jr), tr')"
    using g [of False] by simp
  have g2: "\<exists>res. get_results w pd pid qs True uri pat = Some (res, tr')"
    using g [of True] by (cases "to_frame pd jr") simp_all
  have "page_fetches tr = []" using poll by (rule poll_no_page_fetch)
  then have "page_fetches tr' = map (page_request pid qs P) offs"
    unfolding tr'_def by (rule page_fetches_requests)
  then have pf: "page_fetches tr' = map (\<lambda>k. page_request pid qs P (int k * P)) [0..<n]"
    by (simp add: offs comp_def)
  have rows_len: "map (\<lambda>p. int (length (rows p))) jr = map (\<lambda>off. min P (R - off)) offs"
  proof (rule nth_equalityI)
    show "length (map (\<lambda>p. int (length (rows p))) jr) = length (map (\<lambda>off. min P (R - off)) offs)"
      using ljr len by simp
  next
    fix k assume "k < length (map (\<lambda>p. int (length (rows p))) jr)"
    then have k: "k < n" using ljr by simp
    with pages obtain p where p: "page_answer w pid qs P (int k * P) = Inr p"
      "int (length (rows p)) = min P (R - int k * P)"
      by (auto simp: P_def n_def)
    have "tasks ! k = page_answer w pid qs P (int k * P)"
      using k by (simp add: tasks_def offs)
    moreover have "tasks ! k = Inr (jr ! k)" using k ljr by (simp add: jr)
    ultimately have "jr ! k = p" using p(1) by simp
    then show "map (\<lambda>p. int (length (rows p))) jr ! k = map (\<lambda>off. min P (R - off)) offs ! k"
      using k ljr p(2) by (simp add: offs)
  qed
  have "int (length (concat (map rows jr))) = sum_list (map (\<lambda>p. int (length (rows p))) jr)"
    by (simp add: int_length_concat comp_def)
  also have "\<dots> = sum_list (map (\<lambda>off. min P (R - off)) (range_up 0 R P))"
    using rows_len by (simp add: offs_def)
  also have "\<dots> = R - 0"
    using P pos by (intro sum_rows_range_up) simp_all
  finally have total: "int (length (concat (map rows jr))) = R" by simp
  show ?thesis
    using g1 g2 pf total unfolding P_def n_def
    by (intro exI [of _ jr] exI [of _ tr']) simp
qed

lemma run_in_parallel_returns:
  assumes "{0..<length tasks} \<subseteq> set order"
  shows "\<exists>r. run_in_parallel order tasks = Some r"
proof (cases "complete_tasks order tasks (replicate (length tasks) None)")
  case (Inl e)
  then show ?thesis by (simp add: run_in_parallel_def)
next
  case (Inr slots')
  have "\<forall>i < length tasks. \<exists>r. tasks ! i = Inr r"
    using assms Inr by (auto intro: complete_tasks_Inr_tasks)
  then obtain rs where "tasks = map Inr rs" using all_Inr_map by blast
  with assms have "run_in_parallel order tasks = Some (Inr rs)"
    using run_in_parallel_all_ok by simp
  then show ?thesis by blast
qed

lemma numbered_page_answer:
  "page_answer (service snaps n_rows order) None (QsStr ''j1'') lmt off = Inr (page_of n_rows lmt off)"
  by (simp add: service_def numbered_page_def)

section \<open>Properties\<close>

subsection \<open>C3: the \<open>done\<close> and \<open>succeeded\<close> predicates\<close>

text \<open>
  C3. For every value of \<open>JobState\<close>, \<open>done\<close> holds exactly for COMPLETED, CANCELED and
  FAILED (and so is false for each of the eleven other states), \<open>succeeded\<close> holds exactly
  for COMPLETED, and no job is succeeded without being done.
\<close>

theorem job_done_succeeded:
  "(Job_done j \<longleftrightarrow> job_state j = COMPLETED \<or> job_state j = CANCELED \<or> job_state j = FAILED)
   \<and> (job_state j \<in> {NOT_SUBMITTED, STARTING, RUNNING, CANCELLATION_REQUESTED, PLANNING,
          PENDING, METADATA_RETRIEVAL, QUEUED, ENGINE_START, EXECUTION_PLANNING,
          INVALID_STATE} \<longrightarrow> \<not> Job_done j)
   \<and> (Job_succeeded j \<longleftrightarrow> job_state j = COMPLETED)
   \<and> (Job_succeeded j \<longrightarrow> Job_done j)"
  by (cases "job_state j") (simp_all add: Job_done_def Job_succeeded_def)

theorem job_done_succeeded_witness:
  "Job_succeeded (job_of COMPLETED (Some 3) None None)
   \<and> Job_done (job_of COMPLETED (Some 3) None None)
   \<and> job_state (job_of RUNNING None None None) \<in> {NOT_SUBMITTED, STARTING, RUNNING,
         CANCELLATION_REQUESTED, PLANNING, PENDING, METADATA_RETRIEVAL, QUEUED, ENGINE_START,
         EXECUTION_PLANNING, INVALID_STATE}
   \<and> \<not> Job_done (job_of RUNNING None None None)"
proof -
  have c: "job_state (job_of COMPLETED (Some 3) None None) = COMPLETED"
    by (simp add: job_of_def)
  have r: "job_state (job_of RUNNING None None None) = RUNNING"
    by (simp add: job_of_def)
  show ?thesis
    using job_done_succeeded [of "job_of COMPLETED (Some 3) None None"]
      job_done_succeeded [of "job_of RUNNING None None None"] c r
    by simp
qed

subsection \<open>C4: a job without rows\<close>

text \<open>
  C4. For every successful job whose \<open>row_count\<close> is 0, \<open>get_results\<close> returns the empty
  result (the empty wrapper, or the empty table when a table is asked for) with the events
  of the status loop only, and none of them is a page request.
\<close>

theorem get_results_empty:
  assumes "poll (job_snapshots w) (job_path pid qs) = Some (Inr job, tr)"
    and "Job_succeeded job" and "row_count job = Some 0"
  shows "get_results w pd pid qs use_df uri pat =
           Some (Inr (if use_df then Frame (DataFrame_empty pd) else Wrapper []), tr)
         \<and> page_fetches tr = []"
  using assms get_results_zero poll_no_page_fetch by blast

theorem get_results_empty_witness:
  "poll (job_snapshots (service [Inr (snapshot RUNNING Absent Absent Absent),
                                 Inr (snapshot COMPLETED (Present 0) Absent Absent)] 0 []))
     (job_path None (QsStr ''j1''))
     = Some (Inr (job_of COMPLETED (Some 0) None None),
             [GetJob ''/api/v3/job/j1'', Sleep, GetJob ''/api/v3/job/j1''])
   \<and> Job_succeeded (job_of COMPLETED (Some 0) None None)
   \<and> row_count (job_of COMPLETED (Some 0) None None) = Some 0
   \<and> get_results (service [Inr (snapshot RUNNING Absent Absent Absent),
                            Inr (snapshot COMPLETED (Present 0) Absent Absent)] 0 [])
        table_lib None (QsStr ''j1'') True None None
      = Some (Inr (Frame ([], [])), [GetJob ''/api/v3/job/j1'', Sleep, GetJob ''/api/v3/job/j1''])
   \<and> page_fetches [GetJob ''/api/v3/job/j1'', Sleep, GetJob ''/api/v3/job/j1''] = []"
proof -
  let ?w = "service [Inr (snapshot RUNNING Absent Absent Absent),
                     Inr (snapshot COMPLETED (Present 0) Absent Absent)] 0 []"
  let ?job = "job_of COMPLETED (Some 0) None None"
  let ?tr = "[GetJob ''/api/v3/job/j1'', Sleep, GetJob ''/api/v3/job/j1'']"
  have p: "poll (job_snapshots ?w) (job_path None (QsStr ''j1'')) = Some (Inr ?job, ?tr)"
    using poll_example [of "Present 0" "Some 0" "''/api/v3/job/j1''"]
    by (simp add: service_def optional_def endpoint_of_def as_submission_def del: poll.simps)
  have s: "Job_succeeded ?job" by (simp add: Job_succeeded_def job_of_def)
  have r: "row_count ?job = Some 0" by (simp add: job_of_def)
  show ?thesis
    using get_results_empty [OF p s r, of table_lib True None None] p s r
    by (simp add: table_lib_def)
qed

subsection \<open>C10: a snapshot without \<open>rowCount\<close>\<close>

text \<open>
  C10. When the \<open>rowCount\<close> field of a job snapshot is absent, the deserialised
  \<open>row_count\<close> is 0. So when such a snapshot is COMPLETED and is the first terminal answer
  of the status loop, \<open>get_results\<close> returns the empty result (wrapper or table) and
  issues no page request.
\<close>

theorem absent_row_count_fast_path:
  assumes "rowCount snap = Absent" and "deser_Job snap = Inr job"
  shows "row_count job = Some 0
         \<and> (jobState snap = Present COMPLETED
              \<and> job_snapshots w = pre @ Inr snap # rest
              \<and> (\<forall>s \<in> set pre. \<exists>j. client_get_job s = Inr j \<and> \<not> Job_done j)
            \<longrightarrow> (\<exists>tr. get_results w pd pid qs use_df uri pat
                         = Some (Inr (if use_df then Frame (DataFrame_empty pd) else Wrapper []), tr)
                       \<and> page_fetches tr = []))"
proof (intro conjI impI)
  show rc: "row_count job = Some 0"
    using assms by (rule deser_Job_absent_row_count)
  assume h: "jobState snap = Present COMPLETED
              \<and> job_snapshots w = pre @ Inr snap # rest
              \<and> (\<forall>s \<in> set pre. \<exists>j. client_get_job s = Inr j \<and> \<not> Job_done j)"
  have st: "job_state job = COMPLETED"
    using deser_Job_state [OF assms(2)] h by simp
  have get: "client_get_job (Inr snap) = Inr job"
    using assms(2) by (simp add: client_get_job_def)
  have "Job_done job" using st by (simp add: Job_done_def)
  with h get obtain tr
    where p: "poll (job_snapshots w) (job_path pid qs) = Some (Inr job, tr)"
    using poll_append [of pre "Inr snap" job rest "job_path pid qs"] by auto
  have succ: "Job_succeeded job" using st by (simp add: Job_succeeded_def)
  have "get_results w pd pid qs use_df uri pat
          = Some (Inr (if use_df then Frame (DataFrame_empty pd) else Wrapper []), tr)"
    using p succ rc by (rule get_results_zero)
  moreover have "page_fetches tr = []" using p by (rule poll_no_page_fetch)
  ultimately show "\<exists>tr. get_results w pd pid qs use_df uri pat
                         = Some (Inr (if use_df then Frame (DataFrame_empty pd) else Wrapper []), tr)
                       \<and> page_fetches tr = []"
    by blast
qed

theorem absent_row_count_fast_path_witness:
  "rowCount (snapshot COMPLETED Absent Absent Absent) = Absent
   \<and> deser_Job (snapshot COMPLETED Absent Absent Absent) = Inr (job_of COMPLETED (Some 0) None None)
   \<and> row_count (job_of COMPLETED (Some 0) None None) = Some 0
   \<and> jobState (snapshot COMPLETED Absent Absent Absent) = Present COMPLETED
   \<and> client_get_job (Inr (snapshot RUNNING Absent Absent Absent))
        = Inr (job_of RUNNING (Some 0) None None)
   \<and> \<not> Job_done (job_of RUNNING (Some 0) None None)
   \<and> (\<exists>tr. get_results (service [Inr (snapshot RUNNING Absent Absent Absent),
                                  Inr (snapshot COMPLETED Absent Absent Absent)] 7 [])
               table_lib None (QsStr ''j1'') False None None
             = Some (Inr (Wrapper []), tr)
           \<and> page_fetches tr = [])"
proof -
  let ?snap = "snapshot COMPLETED Absent Absent Absent"
  let ?job = "job_of COMPLETED (Some 0) None None"
  let ?run = "Inr (snapshot RUNNING Absent Absent Absent) :: error + JobSnapshot"
  let ?w = "service [?run, Inr ?snap] 7 []"
  have a: "rowCount ?snap = Absent" by (simp add: snapshot_def)
  have d: "deser_Job ?snap = Inr ?job"
    by (simp add: snapshot_def job_of_def deser_Job_def and_then_def required_def optional_def)
  have st: "jobState ?snap = Present COMPLETED" by (simp add: snapshot_def)
  have sn: "job_snapshots ?w = [?run] @ Inr ?snap # []" by (simp add: service_def)
  have g: "client_get_job ?run = Inr (job_of RUNNING (Some 0) None None)"
    by (simp add: client_get_job_def snapshot_def job_of_def deser_Job_def and_then_def required_def
          optional_def)
  have nd: "\<not> Job_done (job_of RUNNING (Some 0) None None)"
    by (simp add: Job_done_def job_of_def)
  have pre: "\<forall>s \<in> set [?run]. \<exists>j. client_get_job s = Inr j \<and> \<not> Job_done j"
    using g nd by simp
  show ?thesis
    using absent_row_count_fast_path [OF a d, of ?w "[?run]" "[]" table_lib None "QsStr ''j1''"
            False None None] a d st sn g nd pre
    by simp
qed

subsection \<open>C2: the message of a failed job\<close>

text \<open>
  C2. A CANCELED job with neither \<open>errorMessage\<close> nor \<open>cancellationReason\<close>: the
  specification asks for the generic fallback message \<open>Unknown error\<close>, which every other
  failed state without a message gets; here the code formats the missing cancellation
  reason and raises \<open>Job j1 failed: None\<close>. A FAILED job with the message
  \<open>syntax error\<close> raises \<open>Job j1 failed: syntax error\<close>.
\<close>

theorem canceled_without_reason_message:
  "get_results (service [Inr (snapshot CANCELED (Present 0) Absent Absent)] 0 [])
     table_lib None (QsStr ''j1'') False None None
     = Some (Inl (RuntimeError ''Job j1 failed: None''), [GetJob ''/api/v3/job/j1''])
   \<and> get_results (service [Inr (snapshot FAILED (Present 0) (Present ''syntax error'') Absent)] 0 [])
       table_lib None (QsStr ''j1'') False None None
     = Some (Inl (RuntimeError ''Job j1 failed: syntax error''), [GetJob ''/api/v3/job/j1''])"
proof -
  have p1: "poll (job_snapshots (service [Inr (snapshot CANCELED (Present 0) Absent Absent)] 0 []))
              (job_path None (QsStr ''j1''))
            = Some (Inr (job_of CANCELED (Some 0) None None), [GetJob ''/api/v3/job/j1''])"
    by (simp add: service_def snapshot_def job_of_def client_get_job_def deser_Job_def and_then_def
          required_def optional_def Job_done_def endpoint_of_def as_submission_def)
  have p2: "poll (job_snapshots (service [Inr (snapshot FAILED (Present 0) (Present ''syntax error'') Absent)] 0 []))
              (job_path None (QsStr ''j1''))
            = Some (Inr (job_of FAILED (Some 0) (Some ''syntax error'') None), [GetJob ''/api/v3/job/j1''])"
    by (simp add: service_def snapshot_def job_of_def client_get_job_def deser_Job_def and_then_def
          required_def optional_def Job_done_def endpoint_of_def as_submission_def)
  have n1: "\<not> Job_succeeded (job_of CANCELED (Some 0) None None)"
    by (simp add: Job_succeeded_def job_of_def)
  have n2: "\<not> Job_succeeded (job_of FAILED (Some 0) (Some ''syntax error'') None)"
    by (simp add: Job_succeeded_def job_of_def)
  have e1: "emsg (job_of CANCELED (Some 0) None None) = ''None''"
    by (simp add: emsg_def job_of_def truthy_def format_opt_def)
  have e2: "emsg (job_of FAILED (Some 0) (Some ''syntax error'') None) = ''syntax error''"
    by (simp add: emsg_def job_of_def truthy_def format_opt_def)
  show ?thesis
    using get_results_failed [OF p1 n1, of table_lib False None None]
      get_results_failed [OF p2 n2, of table_lib False None None]
    by (simp add: e1 e2 as_submission_def)
qed

subsection \<open>C9: a bare SQL string\<close>

text \<open>
  C9. For every SQL string and both flags, \<open>run_query\<close> on the bare string is
  \<open>run_query\<close> on \<open>Query(sql=s)\<close>, whose context and references are absent: same result,
  same events.
\<close>

theorem run_query_str_eq_Query:
  "run_query env (QueryStr s) use_df use_adbc
     = run_query env (QueryObj \<lparr> sql = s, context_path = None, references = None \<rparr>) use_df use_adbc
   \<and> as_query (QueryStr s) = \<lparr> sql = s, context_path = None, references = None \<rparr>"
  by (simp add: run_query_def run_adbc_query_def as_query_def)

subsection \<open>C8: the connection URI\<close>

text \<open>
  C8, as amended. For every URI that \<open>urlparse\<close> accepts, whatever the components it
  gives, \<open>convert_to_adbc_uri\<close> sets the scheme to \<open>grpc+tls\<close>; it replaces the prefix
  \<open>api.\<close> of the network location by \<open>data.\<close> exactly when the data-plane flag is set
  and the network location (not the host) starts with \<open>api.\<close>, leaving what follows the
  prefix as it is; path, parameters, query and fragment are unchanged.
\<close>

theorem convert_to_adbc_uri_components:
  "url_scheme (convert_to_adbc_uri parse uri is_dc) = ''grpc+tls''
   \<and> url_netloc (convert_to_adbc_uri parse uri is_dc)
       = (if is_dc \<and> startswith (url_netloc (parse uri)) ''api.''
          then ''data.'' @ drop 4 (url_netloc (parse uri))
          else url_netloc (parse uri))
   \<and> (is_dc \<and> url_netloc (parse uri) = ''api.'' @ rest
        \<longrightarrow> url_netloc (convert_to_adbc_uri parse uri is_dc) = ''data.'' @ rest)
   \<and> url_path (convert_to_adbc_uri parse uri is_dc) = url_path (parse uri)
   \<and> url_params (convert_to_adbc_uri parse uri is_dc) = url_params (parse uri)
   \<and> url_query (convert_to_adbc_uri parse uri is_dc) = url_query (parse uri)
   \<and> url_fragment (convert_to_adbc_uri parse uri is_dc) = url_fragment (parse uri)"
  by (simp add: convert_to_adbc_uri_def Let_def startswith_def)

theorem convert_to_adbc_uri_components_witness:
  "url_netloc (cloud_parse ''https://api.dremio.cloud/v0'') = ''api.'' @ ''dremio.cloud''
   \<and> url_netloc (convert_to_adbc_uri cloud_parse ''https://api.dremio.cloud/v0'' True)
       = ''data.dremio.cloud''
   \<and> url_scheme (convert_to_adbc_uri cloud_parse ''https://api.dremio.cloud/v0'' True)
       = ''grpc+tls''
   \<and> url_path (convert_to_adbc_uri cloud_parse ''https://api.dremio.cloud/v0'' True) = ''/v0''"
proof -
  have n: "url_netloc (cloud_parse ''https://api.dremio.cloud/v0'') = ''api.'' @ ''dremio.cloud''"
    by (simp add: cloud_parse_def)
  show ?thesis
    using convert_to_adbc_uri_components
            [of cloud_parse "''https://api.dremio.cloud/v0''" True "''dremio.cloud''"] n
    by (simp add: cloud_parse_def startswith_def)
qed

text \<open>
  C8 as stated fails when the network location carries user information: for
  \<open>https://user@api.dremio.cloud:443/v0\<close> with the data-plane flag set the host is
  \<open>api.dremio.cloud\<close>, which begins with \<open>api.\<close>, yet the network location
  \<open>user@api.dremio.cloud:443\<close> does not, and nothing is rewritten.
\<close>

theorem host_prefix_counterexample:
  "hostname (userinfo_parse ''https://user@api.dremio.cloud:443/v0'') = Some ''api.dremio.cloud''
   \<and> startswith ''api.dremio.cloud'' ''api.''
   \<and> url_netloc (convert_to_adbc_uri userinfo_parse ''https://user@api.dremio.cloud:443/v0'' True)
       = ''user@api.dremio.cloud:443''
   \<and> hostname (convert_to_adbc_uri userinfo_parse ''https://user@api.dremio.cloud:443/v0'' True)
       = Some ''api.dremio.cloud''"
  by (simp add: hostname_def after_last_def lower_char_def userinfo_parse_def startswith_def
        convert_to_adbc_uri_def Let_def)

subsection \<open>C5: completion order and page order\<close>

text \<open>
  C5. For every completion order of the concurrently issued page requests,
  \<open>get_results\<close> returns the result set \<open>jr\<close> exactly when fetching the pages one after
  the other in ascending order of offset, and listing them in that order, gives \<open>jr\<close>:
  the order of completion never shows in the output. The offsets are strictly ascending.
\<close>

theorem concurrent_fetch_order:
  fixes R :: int
  assumes poll: "poll (job_snapshots w) (job_path pid qs) = Some (Inr job, tr)"
    and succ: "Job_succeeded job"
    and rc: "row_count job = Some R"
    and pos: "0 < R"
    and order: "is_completion_order (nat \<lceil>real_of_int R / real_of_int (min 500 R)\<rceil>)
                  (completion_order w)"
  shows "((\<exists>tr'. get_results w pd pid qs False uri pat = Some (Inr (Wrapper jr), tr'))
           \<longleftrightarrow> sequential_fetch (page_answer w pid qs (min 500 R))
                 (map (\<lambda>k. int k * min 500 R)
                    [0..<nat \<lceil>real_of_int R / real_of_int (min 500 R)\<rceil>]) = Inr jr)
         \<and> sorted_wrt (<) (map (\<lambda>k. int k * min 500 R)
                              [0..<nat \<lceil>real_of_int R / real_of_int (min 500 R)\<rceil>])"
proof -
  define P where "P = min 500 R"
  define n where "n = nat \<lceil>real_of_int R / real_of_int P\<rceil>"
  define offs where "offs = range_up 0 R P"
  define tasks where "tasks = map (page_answer w pid qs P) offs"
  have P: "0 < P" using pos by (simp add: P_def)
  have offs: "offs = map (\<lambda>k. int k * P) [0..<n]"
    unfolding offs_def n_def P_def using pos by (rule page_offsets)
  have "length tasks = n" by (simp add: tasks_def offs)
  then have cover: "{0..<length tasks} \<subseteq> set (completion_order w)"
    using order by (simp add: is_completion_order_def n_def P_def)
  have run: "run_in_parallel (completion_order w) tasks = Some (Inr jr) \<longleftrightarrow> tasks = map Inr jr"
    using cover by (rule run_in_parallel_Inr)
  have seq: "sequential_fetch (page_answer w pid qs P) offs = Inr jr \<longleftrightarrow> tasks = map Inr jr"
    unfolding tasks_def by (rule sequential_fetch_Inr)
  have g: "get_results w pd pid qs False uri pat =
             (case run_in_parallel (completion_order w) tasks of
                None \<Rightarrow> None
              | Some (Inl e) \<Rightarrow> Some (Inl e, tr @ map (page_request pid qs P) offs)
              | Some (Inr jr') \<Rightarrow> Some (Inr (Wrapper jr'), tr @ map (page_request pid qs P) offs))"
    using get_results_fetch [OF poll succ rc pos, of pd False uri pat]
    by (simp only: tasks_def offs_def P_def if_False)
  have "(\<exists>tr'. get_results w pd pid qs False uri pat = Some (Inr (Wrapper jr), tr'))
          \<longleftrightarrow> run_in_parallel (completion_order w) tasks = Some (Inr jr)"
    unfolding g by (auto split: option.splits sum.splits)
  then have "(\<exists>tr'. get_results w pd pid qs False uri pat = Some (Inr (Wrapper jr), tr'))
          \<longleftrightarrow> sequential_fetch (page_answer w pid qs P) offs = Inr jr"
    using run seq by simp
  moreover have "sorted_wrt (<) (map (\<lambda>k. int k * P) [0..<n])"
    using P by (rule sorted_page_offsets)
  ultimately show ?thesis
    unfolding offs P_def n_def by simp
qed

theorem concurrent_fetch_order_witness:
  "poll (job_snapshots (service [Inr (snapshot RUNNING Absent Absent Absent),
                                 Inr (snapshot COMPLETED (Present 1200) Absent Absent)] 1200 [2, 0, 1]))
     (job_path None (QsStr ''j1''))
   = Some (Inr (job_of COMPLETED (Some 1200) None None),
           [GetJob ''/api/v3/job/j1'', Sleep, GetJob ''/api/v3/job/j1''])
   \<and> Job_succeeded (job_of COMPLETED (Some 1200) None None)
   \<and> row_count (job_of COMPLETED (Some 1200) None None) = Some 1200
   \<and> is_completion_order 3 [2, 0, 1]
   \<and> sequential_fetch
        (page_answer (service [Inr (snapshot RUNNING Absent Absent Absent),
                               Inr (snapshot COMPLETED (Present 1200) Absent Absent)] 1200 [2, 0, 1])
           None (QsStr ''j1'') 500) [0, 500, 1000]
       = Inr [page_of 1200 500 0, page_of 1200 500 500, page_of 1200 500 1000]
   \<and> (\<exists>tr'. get_results (service [Inr (snapshot RUNNING Absent Absent Absent),
                                   Inr (snapshot COMPLETED (Present 1200) Absent Absent)] 1200 [2, 0, 1])
               table_lib None (QsStr ''j1'') False None None
             = Some (Inr (Wrapper [page_of 1200 500 0, page_of 1200 500 500, page_of 1200 500 1000]),
                     tr'))
   \<and> sorted_wrt (<) [0, 500, 1000 :: int]"
proof -
  let ?w = "service [Inr (snapshot RUNNING Absent Absent Absent),
                     Inr (snapshot COMPLETED (Present 1200) Absent Absent)] 1200 [2, 0, 1]"
  let ?job = "job_of COMPLETED (Some 1200) None None"
  let ?jr = "[page_of 1200 500 0, page_of 1200 500 500, page_of 1200 500 1000]"
  have p: "poll (job_snapshots ?w) (job_path None (QsStr ''j1''))
             = Some (Inr ?job, [GetJob ''/api/v3/job/j1'', Sleep, GetJob ''/api/v3/job/j1''])"
    by (rule poll_service_example)
  have s: "Job_succeeded ?job" by (simp add: Job_succeeded_def job_of_def)
  have r: "row_count ?job = Some 1200" by (simp add: job_of_def)
  have pos: "(0::int) < 1200" by simp
  have o: "is_completion_order (nat \<lceil>real_of_int 1200 / real_of_int (min 500 1200)\<rceil>)
             (completion_order ?w)"
    using completion_order_example by (simp add: service_def)
  have up: "[0..<3] = [0, 1, 2]" by (simp add: upt_rec)
  have seq: "sequential_fetch (page_answer ?w None (QsStr ''j1'') 500) [0, 500, 1000] = Inr ?jr"
    by (simp add: service_def numbered_page_def)
  have "((\<exists>tr'. get_results ?w table_lib None (QsStr ''j1'') False None None
                  = Some (Inr (Wrapper ?jr), tr'))
           \<longleftrightarrow> sequential_fetch (page_answer ?w None (QsStr ''j1'') 500) [0, 500, 1000] = Inr ?jr)
        \<and> sorted_wrt (<) [0, 500, 1000 :: int]"
    using concurrent_fetch_order [OF p s r pos o, of table_lib None None ?jr]
    by (simp add: up)
  with seq p s r completion_order_example show ?thesis by blast
qed

subsection \<open>C6: the result of the direct-protocol path\<close>

text \<open>
  C6, as amended. When connecting, opening the cursor, executing, fetching and both
  releases succeed, and no fetched row has more values than there are column descriptors,
  \<open>run_adbc_query\<close> (without a table asked for) returns one page: its \<open>row_count\<close> is the
  number of fetched rows, its schema lists the descriptor names with the text of their
  type codes in descriptor order, and each of its rows has the names of the columns
  the row has values for as keys, and maps the name of a column to the value at that
  position whenever no later column of the row bears the same name.
\<close>

theorem direct_path_single_page:
  assumes "connects env = None"
    and "cursor_fails (adbc env) = None"
    and "execute_fails (adbc env) (sql (as_query q)) = None"
    and "fetchall_result (adbc env) (sql (as_query q)) = Inr tuples"
    and "cursor_close_fails (adbc env) = None"
    and "conn_close_fails (adbc env) = None"
    and "\<forall>r \<in> set tuples. length r \<le> length (description (adbc env) (sql (as_query q)))"
  shows "\<exists>rsrows.
           run_adbc_query env q False
             = (Inr (Wrapper [\<lparr> results_row_count = int (length tuples),
                                 result_schema = Some (result_schema_of (str_of_type (adbc env))
                                                         (description (adbc env) (sql (as_query q)))),
                                 rows = rsrows \<rparr>]),
                [connect_event env, CursorOpen, Execute (sql (as_query q)), FetchAll,
                 CursorClose, ConnClose])
           \<and> length rsrows = length tuples
           \<and> (\<forall>i < length tuples.
                 fst ` set (rsrows ! i)
                   = fst ` set (take (length (tuples ! i)) (description (adbc env) (sql (as_query q))))
                 \<and> (\<forall>ix < length (tuples ! i).
                      (\<forall>j. ix < j \<and> j < length (tuples ! i)
                            \<longrightarrow> fst (description (adbc env) (sql (as_query q)) ! j)
                                  \<noteq> fst (description (adbc env) (sql (as_query q)) ! ix))
                      \<longrightarrow> map_of (rsrows ! i) (fst (description (adbc env) (sql (as_query q)) ! ix))
                            = Some (tuples ! i ! ix)))"
proof -
  let ?schema = "description (adbc env) (sql (as_query q))"
  obtain rsrows where
    conv: "convert_to_job_results (str_of_type (adbc env)) ?schema tuples
             = Inr [\<lparr> results_row_count = int (length tuples),
                      result_schema = Some (result_schema_of (str_of_type (adbc env)) ?schema),
                      rows = rsrows \<rparr>]"
    and len: "length rsrows = length tuples"
    and look: "\<forall>i < length tuples.
                 fst ` set (rsrows ! i) = fst ` set (take (length (tuples ! i)) ?schema)
                 \<and> (\<forall>ix < length (tuples ! i).
                      (\<forall>j. ix < j \<and> j < length (tuples ! i) \<longrightarrow> fst (?schema ! j) \<noteq> fst (?schema ! ix))
                      \<longrightarrow> map_of (rsrows ! i) (fst (?schema ! ix)) = Some (tuples ! i ! ix))"
    using convert_to_job_results_page [OF assms(7), of "str_of_type (adbc env)"] by blast
  have "run_adbc_query env q False
          = (Inr (Wrapper [\<lparr> results_row_count = int (length tuples),
                              result_schema = Some (result_schema_of (str_of_type (adbc env)) ?schema),
                              rows = rsrows \<rparr>]),
             [connect_event env, CursorOpen, Execute (sql (as_query q)), FetchAll,
              CursorClose, ConnClose])"
    unfolding run_adbc_query_unfold
    by (simp add: adbc_connect_def adbc_cursor_def execute_and_fetch_def assms(1-6) conv)
  with len look show ?thesis by blast
qed

theorem direct_path_single_page_witness:
  "connects (env_of (driver_of None None None None None [(''id'', ''INT''), (''n'', ''INT'')]
                       [ [1, 10], [2, 20] ])) = None
   \<and> length [1, 10 :: int] \<le> length [(''id'', ''INT''), (''n'', ''INT'')]
   \<and> length [2, 20 :: int] \<le> length [(''id'', ''INT''), (''n'', ''INT'')]
   \<and> (\<exists>rsrows.
         run_adbc_query
           (env_of (driver_of None None None None None [(''id'', ''INT''), (''n'', ''INT'')]
                      [ [1, 10], [2, 20] ]))
           (QueryStr ''SELECT id, n FROM t'') False
           = (Inr (Wrapper [\<lparr> results_row_count = 2,
                               result_schema = Some (result_schema_of id [(''id'', ''INT''), (''n'', ''INT'')]),
                               rows = rsrows \<rparr>]),
              [connect_event (env_of (driver_of None None None None None
                                        [(''id'', ''INT''), (''n'', ''INT'')] [ [1, 10], [2, 20] ])),
               CursorOpen, Execute ''SELECT id, n FROM t'', FetchAll, CursorClose, ConnClose])
         \<and> length rsrows = 2
         \<and> map_of (rsrows ! 0) ''id'' = Some 1
         \<and> map_of (rsrows ! 1) ''n'' = Some 20)"
proof -
  let ?desc = "[(''id'', ''INT''), (''n'', ''INT'')]"
  let ?tuples = "[ [1, 10], [2, 20 :: int] ]"
  let ?env = "env_of (driver_of None None None None None ?desc ?tuples)"
  let ?q = "QueryStr ''SELECT id, n FROM t''"
  have h1: "connects ?env = None" by simp
  have h2: "cursor_fails (adbc ?env) = None" by simp
  have h3: "execute_fails (adbc ?env) (sql (as_query ?q)) = None" by simp
  have h4: "fetchall_result (adbc ?env) (sql (as_query ?q)) = Inr ?tuples" by simp
  have h5: "cursor_close_fails (adbc ?env) = None" by simp
  have h6: "conn_close_fails (adbc ?env) = None" by simp
  have w: "\<forall>r \<in> set ?tuples. length r \<le> length ?desc" by simp
  then have h7: "\<forall>r \<in> set ?tuples. length r \<le> length (description (adbc ?env) (sql (as_query ?q)))"
    by simp
  obtain rsrows where
    run: "run_adbc_query ?env ?q False
            = (Inr (Wrapper [\<lparr> results_row_count = int (length ?tuples),
                                result_schema = Some (result_schema_of (str_of_type (adbc ?env))
                                                        (description (adbc ?env) (sql (as_query ?q)))),
                                rows = rsrows \<rparr>]),
               [connect_event ?env, CursorOpen, Execute (sql (as_query ?q)), FetchAll,
                CursorClose, ConnClose])"
    and len: "length rsrows = length ?tuples"
    and look: "\<forall>i < length ?tuples.
                 fst ` set (rsrows ! i)
                   = fst ` set (take (length (?tuples ! i)) (description (adbc ?env) (sql (as_query ?q))))
                 \<and> (\<forall>ix < length (?tuples ! i).
                      (\<forall>j. ix < j \<and> j < length (?tuples ! i)
                            \<longrightarrow> fst (description (adbc ?env) (sql (as_query ?q)) ! j)
                                  \<noteq> fst (description (adbc ?env) (sql (as_query ?q)) ! ix))
                      \<longrightarrow> map_of (rsrows ! i) (fst (description (adbc ?env) (sql (as_query ?q)) ! ix))
                            = Some (?tuples ! i ! ix))"
    using direct_path_single_page [OF h1 h2 h3 h4 h5 h6 h7] by blast
  have d0: "\<forall>j. 0 < j \<and> j < length (?tuples ! 0)
               \<longrightarrow> fst (description (adbc ?env) (sql (as_query ?q)) ! j)
                     \<noteq> fst (description (adbc ?env) (sql (as_query ?q)) ! 0)"
    by (auto simp: less_Suc_eq numeral_2_eq_2)
  have d1: "\<forall>j. 1 < j \<and> j < length (?tuples ! 1)
               \<longrightarrow> fst (description (adbc ?env) (sql (as_query ?q)) ! j)
                     \<noteq> fst (description (adbc ?env) (sql (as_query ?q)) ! 1)"
    by (auto simp: less_Suc_eq numeral_2_eq_2)
  note d0r = d0 [rule_format] and d1r = d1 [rule_format]
  have l0: "map_of (rsrows ! 0) ''id'' = Some 1"
    using look [rule_format, of 0, THEN conjunct2, rule_format, of 0, OF _ _ d0r] by simp
  have l1: "map_of (rsrows ! 1) ''n'' = Some 20"
    using look [rule_format, of 1, THEN conjunct2, rule_format, of 1, OF _ _ d1r] by simp
  have "run_adbc_query ?env ?q False
          = (Inr (Wrapper [\<lparr> results_row_count = 2,
                              result_schema = Some (result_schema_of id ?desc),
                              rows = rsrows \<rparr>]),
             [connect_event ?env, CursorOpen, Execute ''SELECT id, n FROM t'', FetchAll,
              CursorClose, ConnClose])"
    using run by (simp add: as_query_def)
  with len l0 l1 h1 w show ?thesis by auto
qed

text \<open>
  C6 as stated fails when two columns bear the same name: for the descriptors \<open>a, a\<close>
  and the row \<open>(1, 2)\<close> the page holds the row \<open>{a: 2}\<close>, which does not map the name of
  column 0 to the value 1 at that position.
\<close>

theorem duplicate_column_counterexample:
  "fst (run_adbc_query
          (env_of (driver_of None None None None None [(''a'', ''INT''), (''a'', ''INT'')] [ [1, 2] ]))
          (QueryStr ''SELECT 1 AS a, 2 AS a'') False)
     = Inr (Wrapper [\<lparr> results_row_count = 1,
                        result_schema = Some [\<lparr> schema_name = ''a'', schema_type = \<lparr> type_name = ''INT'' \<rparr> \<rparr>,
                                              \<lparr> schema_name = ''a'', schema_type = \<lparr> type_name = ''INT'' \<rparr> \<rparr>],
                        rows = [ [(''a'', 2)] ] \<rparr>])
   \<and> map_of [(''a'', 2 :: int)] (fst ([(''a'', ''INT''), (''a'', ''INT'')] ! 0)) \<noteq> Some ([1, 2] ! 0)"
  unfolding run_adbc_query_unfold
  by (simp add: adbc_connect_def adbc_cursor_def execute_and_fetch_def convert_to_job_results_def
        result_schema_of_def convert_row_def as_query_def)

subsection \<open>C7: release of connection and cursor\<close>

text \<open>
  C7, as amended. A failed connection attempt is what \<open>run_adbc_query\<close> raises, and
  nothing is opened or closed after it. When the connection is acquired, its \<open>close\<close> is
  the last event and occurs once, whatever happens in between; when the cursor cannot be
  opened no cursor is closed; when it is opened, its \<open>close\<close> follows the block, occurs
  once, and precedes the close of the connection. A failure to open the cursor, or a
  failure to execute, is raised unchanged provided the releases that follow succeed; a
  release that fails raises its own failure instead.
\<close>

theorem scoped_release:
  "(connects env = Some e \<longrightarrow> run_adbc_query env q use_df = (Inl e, [connect_event env]))
   \<and> (connects env = None \<longrightarrow>
        (\<exists>body. snd (run_adbc_query env q use_df) = connect_event env # body @ [ConnClose]
           \<and> ConnClose \<notin> set body
           \<and> (cursor_fails (adbc env) = Some e \<longrightarrow> body = [CursorOpen])
           \<and> (cursor_fails (adbc env) = None \<longrightarrow>
                (\<exists>block. body = CursorOpen # block @ [CursorClose] \<and> CursorClose \<notin> set block))))
   \<and> (connects env = None \<and> cursor_fails (adbc env) = Some e \<and> conn_close_fails (adbc env) = None
        \<longrightarrow> fst (run_adbc_query env q use_df) = Inl e)
   \<and> (connects env = None \<and> cursor_fails (adbc env) = None
        \<and> execute_fails (adbc env) (sql (as_query q)) = Some e
        \<and> cursor_close_fails (adbc env) = None \<and> conn_close_fails (adbc env) = None
        \<longrightarrow> fst (run_adbc_query env q use_df) = Inl e)
   \<and> (connects env = None \<and> cursor_fails (adbc env) = None
        \<and> cursor_close_fails (adbc env) = Some e \<and> conn_close_fails (adbc env) = None
        \<longrightarrow> fst (run_adbc_query env q use_df) = Inl e)
   \<and> (connects env = None \<and> conn_close_fails (adbc env) = Some e
        \<longrightarrow> fst (run_adbc_query env q use_df) = Inl e)"
proof (intro conjI impI)
  let ?blk = "execute_and_fetch (adbc env) (sql (as_query q)) use_df"
  let ?cur = "adbc_cursor (adbc env) ?blk"
  note nc = execute_and_fetch_no_close [of "adbc env" "sql (as_query q)" use_df]
  show "run_adbc_query env q use_df = (Inl e, [connect_event env])" if "connects env = Some e"
    unfolding run_adbc_query_unfold using that by (simp add: adbc_connect_def)
  show "\<exists>body. snd (run_adbc_query env q use_df) = connect_event env # body @ [ConnClose]
           \<and> ConnClose \<notin> set body
           \<and> (cursor_fails (adbc env) = Some e \<longrightarrow> body = [CursorOpen])
           \<and> (cursor_fails (adbc env) = None \<longrightarrow>
                (\<exists>block. body = CursorOpen # block @ [CursorClose] \<and> CursorClose \<notin> set block))"
    if c: "connects env = None"
  proof (rule exI [of _ "snd ?cur"], intro conjI)
    show "snd (run_adbc_query env q use_df) = connect_event env # snd ?cur @ [ConnClose]"
      unfolding run_adbc_query_unfold using c
      by (simp add: adbc_connect_def split: option.splits)
    show "ConnClose \<notin> set (snd ?cur)"
      using nc by (simp add: adbc_cursor_def split: option.splits)
    show "cursor_fails (adbc env) = Some e \<longrightarrow> snd ?cur = [CursorOpen]"
      by (simp add: adbc_cursor_def)
    show "cursor_fails (adbc env) = None \<longrightarrow>
            (\<exists>block. snd ?cur = CursorOpen # block @ [CursorClose] \<and> CursorClose \<notin> set block)"
    proof
      assume "cursor_fails (adbc env) = None"
      then have "snd ?cur = CursorOpen # snd ?blk @ [CursorClose] \<and> CursorClose \<notin> set (snd ?blk)"
        using nc by (simp add: adbc_cursor_def split: option.splits)
      then show "\<exists>block. snd ?cur = CursorOpen # block @ [CursorClose] \<and> CursorClose \<notin> set block"
        by (rule exI)
    qed
  qed
  show "fst (run_adbc_query env q use_df) = Inl e"
    if "connects env = None \<and> cursor_fails (adbc env) = Some e \<and> conn_close_fails (adbc env) = None"
    unfolding run_adbc_query_unfold using that by (simp add: adbc_connect_def adbc_cursor_def)
  show "fst (run_adbc_query env q use_df) = Inl e"
    if "connects env = None \<and> cursor_fails (adbc env) = None
        \<and> execute_fails (adbc env) (sql (as_query q)) = Some e
        \<and> cursor_close_fails (adbc env) = None \<and> conn_close_fails (adbc env) = None"
    unfolding run_adbc_query_unfold using that
    by (simp add: adbc_connect_def adbc_cursor_def execute_and_fetch_failure)
  show "fst (run_adbc_query env q use_df) = Inl e"
    if "connects env = None \<and> cursor_fails (adbc env) = None
        \<and> cursor_close_fails (adbc env) = Some e \<and> conn_close_fails (adbc env) = None"
    unfolding run_adbc_query_unfold using that by (simp add: adbc_connect_def adbc_cursor_def)
  show "fst (run_adbc_query env q use_df) = Inl e"
    if "connects env = None \<and> conn_close_fails (adbc env) = Some e"
    unfolding run_adbc_query_unfold using that by (simp add: adbc_connect_def)
qed

theorem scoped_release_witness:
  "connects (env_of (driver_of (Some (DriverError ''connect'')) None None None None [] [])) = Some (DriverError ''connect'')
   \<and> run_adbc_query (env_of (driver_of (Some (DriverError ''connect'')) None None None None [] [])) (QueryStr ''SELECT 1'') False
       = (Inl (DriverError ''connect''), [connect_event (env_of (driver_of (Some (DriverError ''connect'')) None None None None [] []))])
   \<and> connects (env_of (driver_of None None (Some (DriverError ''execute'')) None None [] [])) = None
   \<and> cursor_fails (adbc (env_of (driver_of None None (Some (DriverError ''execute'')) None None [] []))) = None
   \<and> execute_fails (adbc (env_of (driver_of None None (Some (DriverError ''execute'')) None None [] []))) (sql (as_query (QueryStr ''SELECT 1''))) = Some (DriverError ''execute'')
   \<and> cursor_close_fails (adbc (env_of (driver_of None None (Some (DriverError ''execute'')) None None [] []))) = None
   \<and> conn_close_fails (adbc (env_of (driver_of None None (Some (DriverError ''execute'')) None None [] []))) = None
   \<and> fst (run_adbc_query (env_of (driver_of None None (Some (DriverError ''execute'')) None None [] [])) (QueryStr ''SELECT 1'') False) = Inl (DriverError ''execute'')
   \<and> (\<exists>body. snd (run_adbc_query (env_of (driver_of None None (Some (DriverError ''execute'')) None None [] [])) (QueryStr ''SELECT 1'') False)
                = connect_event (env_of (driver_of None None (Some (DriverError ''execute'')) None None [] [])) # body @ [ConnClose]
              \<and> ConnClose \<notin> set body
              \<and> (\<exists>block. body = CursorOpen # block @ [CursorClose] \<and> CursorClose \<notin> set block))
   \<and> cursor_fails (adbc (env_of (driver_of None (Some (DriverError ''cursor'')) None None None [] []))) = Some (DriverError ''cursor'')
   \<and> fst (run_adbc_query (env_of (driver_of None (Some (DriverError ''cursor'')) None None None [] [])) (QueryStr ''SELECT 1'') False) = Inl (DriverError ''cursor'')
   \<and> (\<exists>body. snd (run_adbc_query (env_of (driver_of None (Some (DriverError ''cursor'')) None None None [] [])) (QueryStr ''SELECT 1'') False)
                = connect_event (env_of (driver_of None (Some (DriverError ''cursor'')) None None None [] [])) # body @ [ConnClose]
              \<and> body = [CursorOpen])
   \<and> cursor_close_fails (adbc (env_of (driver_of None None None (Some (DriverError ''cursor close'')) None [] []))) = Some (DriverError ''cursor close'')
   \<and> fst (run_adbc_query (env_of (driver_of None None None (Some (DriverError ''cursor close'')) None [] [])) (QueryStr ''SELECT 1'') False) = Inl (DriverError ''cursor close'')
   \<and> conn_close_fails (adbc (env_of (driver_of None None None None (Some (DriverError ''close'')) [] []))) = Some (DriverError ''close'')
   \<and> fst (run_adbc_query (env_of (driver_of None None None None (Some (DriverError ''close'')) [] [])) (QueryStr ''SELECT 1'') False) = Inl (DriverError ''close'')"
proof -
  let ?q = "(QueryStr ''SELECT 1'')"
  let ?a = "env_of (driver_of (Some (DriverError ''connect'')) None None None None [] [])"
  let ?b = "env_of (driver_of None None (Some (DriverError ''execute'')) None None [] [])"
  let ?c = "env_of (driver_of None (Some (DriverError ''cursor'')) None None None [] [])"
  let ?d = "env_of (driver_of None None None (Some (DriverError ''cursor close'')) None [] [])"
  let ?e = "env_of (driver_of None None None None (Some (DriverError ''close'')) [] [])"
  have a: "connects ?a = Some (DriverError ''connect'')" by simp
  have b: "connects ?b = None" "cursor_fails (adbc ?b) = None"
    "execute_fails (adbc ?b) (sql (as_query ?q)) = Some (DriverError ''execute'')"
    "cursor_close_fails (adbc ?b) = None" "conn_close_fails (adbc ?b) = None"
    by simp_all
  have c: "connects ?c = None" "cursor_fails (adbc ?c) = Some (DriverError ''cursor'')"
    "conn_close_fails (adbc ?c) = None"
    by simp_all
  have d: "connects ?d = None" "cursor_fails (adbc ?d) = None"
    "cursor_close_fails (adbc ?d) = Some (DriverError ''cursor close'')"
    "conn_close_fails (adbc ?d) = None"
    by simp_all
  have e: "connects ?e = None" "conn_close_fails (adbc ?e) = Some (DriverError ''close'')"
    by simp_all
  have ra: "run_adbc_query ?a ?q False = (Inl (DriverError ''connect''), [connect_event ?a])"
    using scoped_release [of ?a "DriverError ''connect''" ?q False] a by blast
  have rb: "fst (run_adbc_query ?b ?q False) = Inl (DriverError ''execute'')"
    using scoped_release [of ?b "DriverError ''execute''" ?q False] b by blast
  have tb: "\<exists>body. snd (run_adbc_query ?b ?q False) = connect_event ?b # body @ [ConnClose]
              \<and> ConnClose \<notin> set body
              \<and> (\<exists>block. body = CursorOpen # block @ [CursorClose] \<and> CursorClose \<notin> set block)"
    using scoped_release [of ?b "DriverError ''execute''" ?q False] b(1,2) by blast
  have rc: "fst (run_adbc_query ?c ?q False) = Inl (DriverError ''cursor'')"
    using scoped_release [of ?c "DriverError ''cursor''" ?q False] c by blast
  have tc: "\<exists>body. snd (run_adbc_query ?c ?q False) = connect_event ?c # body @ [ConnClose]
              \<and> body = [CursorOpen]"
    using scoped_release [of ?c "DriverError ''cursor''" ?q False] c(1,2) by blast
  have rd: "fst (run_adbc_query ?d ?q False) = Inl (DriverError ''cursor close'')"
    using scoped_release [of ?d "DriverError ''cursor close''" ?q False] d by blast
  have re: "fst (run_adbc_query ?e ?q False) = Inl (DriverError ''close'')"
    using scoped_release [of ?e "DriverError ''close''" ?q False] e by blast
  show ?thesis
    using a ra b rb tb c(2) rc tc d(3) rd e(2) re by (intro conjI)
qed

text \<open>
  C7 as stated fails when a release fails: with an \<open>execute\<close> that raises and a
  \<open>cursor.close\<close> that raises too, the caller receives the failure of \<open>close\<close>, not that
  of \<open>execute\<close>.
\<close>

theorem close_failure_counterexample:
  "execute_fails (adbc (env_of (driver_of None None (Some (DriverError ''execute''))
                                  (Some (DriverError ''cursor close'')) None [] [])))
     ''SELECT 1'' = Some (DriverError ''execute'')
   \<and> fst (run_adbc_query
            (env_of (driver_of None None (Some (DriverError ''execute''))
                       (Some (DriverError ''cursor close'')) None [] []))
            (QueryStr ''SELECT 1'') False)
       = Inl (DriverError ''cursor close'')
   \<and> DriverError ''cursor close'' \<noteq> DriverError ''execute''"
  unfolding run_adbc_query_unfold
  by (simp add: adbc_connect_def adbc_cursor_def)

subsection \<open>C1: the page requests\<close>

text \<open>
  C1. For every successful job with \<open>row_count\<close> \<open>R > 0\<close>, with \<open>P = min(500, R)\<close>, and
  every order in which the pages complete: \<open>get_results\<close> returns, in either output
  mode, and the page requests it has issued are exactly one per offset \<open>0, P, 2P, ...\<close>
  below \<open>R\<close>, each with limit \<open>P\<close>, that is \<open>ceil(R / P)\<close> requests. When every page answers
  with the rows asked of it (\<open>P\<close> rows, or the \<open>R - offset\<close> that remain), the pages
  returned hold \<open>R\<close> rows together.
\<close>

theorem paginated_fetch:
  fixes R :: int
  assumes poll: "poll (job_snapshots w) (job_path pid qs) = Some (Inr job, tr)"
    and succ: "Job_succeeded job"
    and rc: "row_count job = Some R"
    and pos: "0 < R"
    and order: "is_completion_order (nat \<lceil>real_of_int R / real_of_int (min 500 R)\<rceil>)
                  (completion_order w)"
  shows "(\<exists>res tr'.
            get_results w pd pid qs use_df uri pat = Some (res, tr')
            \<and> page_fetches tr'
                = map (\<lambda>k. page_request pid qs (min 500 R) (int k * min 500 R))
                    [0..<nat \<lceil>real_of_int R / real_of_int (min 500 R)\<rceil>]
            \<and> length (page_fetches tr') = nat \<lceil>real_of_int R / real_of_int (min 500 R)\<rceil>)
         \<and> ((\<forall>k < nat \<lceil>real_of_int R / real_of_int (min 500 R)\<rceil>.
                \<exists>p. page_answer w pid qs (min 500 R) (int k * min 500 R) = Inr p
                     \<and> int (length (rows p)) = min (min 500 R) (R - int k * min 500 R))
              \<longrightarrow> (\<exists>jr tr'. get_results w pd pid qs False uri pat = Some (Inr (Wrapper jr), tr')
                            \<and> int (length (concat (map rows jr))) = R))"
proof (intro conjI impI)
  define P where "P = min 500 R"
  define n where "n = nat \<lceil>real_of_int R / real_of_int P\<rceil>"
  define offs where "offs = range_up 0 R P"
  define tasks where "tasks = map (page_answer w pid qs P) offs"
  define tr' where "tr' = tr @ map (page_request pid qs P) offs"
  have offs: "offs = map (\<lambda>k. int k * P) [0..<n]"
    unfolding offs_def n_def P_def using pos by (rule page_offsets)
  have "length tasks = n" by (simp add: tasks_def offs)
  then have "{0..<length tasks} \<subseteq> set (completion_order w)"
    using order by (simp add: is_completion_order_def n_def P_def)
  then obtain r where run: "run_in_parallel (completion_order w) tasks = Some r"
    using run_in_parallel_returns by blast
  have "get_results w pd pid qs use_df uri pat =
          (case r of
             Inl e \<Rightarrow> Some (Inl e, tr')
           | Inr jr \<Rightarrow>
               if use_df then
                 (case to_frame pd jr of
                    Inl e \<Rightarrow> Some (Inl e, tr')
                  | Inr df \<Rightarrow> Some (Inr (Frame df), tr'))
               else Some (Inr (Wrapper jr), tr'))"
    using get_results_fetch [OF poll succ rc pos, of pd use_df uri pat] run
    by (cases r) (simp_all only: tasks_def offs_def P_def tr'_def option.case sum.case)
  then have ret: "\<exists>res. get_results w pd pid qs use_df uri pat = Some (res, tr')"
    by (auto split: sum.splits)
  have "page_fetches tr = []" using poll by (rule poll_no_page_fetch)
  then have "page_fetches tr' = map (page_request pid qs P) offs"
    unfolding tr'_def by (rule page_fetches_requests)
  then have pf: "page_fetches tr' = map (\<lambda>k. page_request pid qs P (int k * P)) [0..<n]"
    by (simp add: offs comp_def)
  then have "length (page_fetches tr') = n" by simp
  with ret pf show "\<exists>res tr'.
            get_results w pd pid qs use_df uri pat = Some (res, tr')
            \<and> page_fetches tr'
                = map (\<lambda>k. page_request pid qs (min 500 R) (int k * min 500 R))
                    [0..<nat \<lceil>real_of_int R / real_of_int (min 500 R)\<rceil>]
            \<and> length (page_fetches tr') = nat \<lceil>real_of_int R / real_of_int (min 500 R)\<rceil>"
    unfolding P_def n_def by blast
next
  assume "\<forall>k < nat \<lceil>real_of_int R / real_of_int (min 500 R)\<rceil>.
            \<exists>p. page_answer w pid qs (min 500 R) (int k * min 500 R) = Inr p
                 \<and> int (length (rows p)) = min (min 500 R) (R - int k * min 500 R)"
  then show "\<exists>jr tr'. get_results w pd pid qs False uri pat = Some (Inr (Wrapper jr), tr')
                      \<and> int (length (concat (map rows jr))) = R"
    using get_results_all_pages [OF poll succ rc pos order, of pd uri pat] by blast
qed

theorem paginated_fetch_witness:
  "poll (job_snapshots (service [Inr (snapshot RUNNING Absent Absent Absent),
                 Inr (snapshot COMPLETED (Present 1200) Absent Absent)] 1200 [2, 0, 1]))
     (job_path None (QsStr ''j1''))
   = Some (Inr (job_of COMPLETED (Some 1200) None None),
           [GetJob ''/api/v3/job/j1'', Sleep, GetJob ''/api/v3/job/j1''])
   \<and> Job_succeeded (job_of COMPLETED (Some 1200) None None)
   \<and> row_count (job_of COMPLETED (Some 1200) None None) = Some 1200
   \<and> is_completion_order 3 [2, 0, 1]
   \<and> page_answer (service [Inr (snapshot RUNNING Absent Absent Absent),
                 Inr (snapshot COMPLETED (Present 1200) Absent Absent)] 1200 [2, 0, 1])
        None (QsStr ''j1'') 500 0 = Inr (page_of 1200 500 0)
   \<and> page_answer (service [Inr (snapshot RUNNING Absent Absent Absent),
                 Inr (snapshot COMPLETED (Present 1200) Absent Absent)] 1200 [2, 0, 1])
        None (QsStr ''j1'') 500 500 = Inr (page_of 1200 500 500)
   \<and> page_answer (service [Inr (snapshot RUNNING Absent Absent Absent),
                 Inr (snapshot COMPLETED (Present 1200) Absent Absent)] 1200 [2, 0, 1])
        None (QsStr ''j1'') 500 1000 = Inr (page_of 1200 500 1000)
   \<and> length (rows (page_of 1200 500 0)) = 500
   \<and> length (rows (page_of 1200 500 500)) = 500
   \<and> length (rows (page_of 1200 500 1000)) = 200
   \<and> (\<exists>res tr'.
         get_results (service [Inr (snapshot RUNNING Absent Absent Absent),
                 Inr (snapshot COMPLETED (Present 1200) Absent Absent)] 1200 [2, 0, 1])
           table_lib None (QsStr ''j1'') True None None = Some (res, tr')
         \<and> page_fetches tr'
             = [page_request None (QsStr ''j1'') 500 0, page_request None (QsStr ''j1'') 500 500,
                page_request None (QsStr ''j1'') 500 1000]
         \<and> length (page_fetches tr') = 3)
   \<and> (\<exists>jr tr'.
         get_results (service [Inr (snapshot RUNNING Absent Absent Absent),
                 Inr (snapshot COMPLETED (Present 1200) Absent Absent)] 1200 [2, 0, 1])
           table_lib None (QsStr ''j1'') False None None = Some (Inr (Wrapper jr), tr')
         \<and> int (length (concat (map rows jr))) = 1200)"
proof -
  let ?w = "(service [Inr (snapshot RUNNING Absent Absent Absent),
                 Inr (snapshot COMPLETED (Present 1200) Absent Absent)] 1200 [2, 0, 1])"
  let ?job = "job_of COMPLETED (Some 1200) None None"
  have p: "poll (job_snapshots ?w) (job_path None (QsStr ''j1''))
             = Some (Inr ?job, [GetJob ''/api/v3/job/j1'', Sleep, GetJob ''/api/v3/job/j1''])"
    by (rule poll_service_example)
  have s: "Job_succeeded ?job" by (simp add: Job_succeeded_def job_of_def)
  have r: "row_count ?job = Some 1200" by (simp add: job_of_def)
  have pos: "(0::int) < 1200" by simp
  have o: "is_completion_order (nat \<lceil>real_of_int 1200 / real_of_int (min 500 1200)\<rceil>)
             (completion_order ?w)"
    using completion_order_example by (simp add: service_def)
  have pg: "\<forall>k < nat \<lceil>real_of_int 1200 / real_of_int (min 500 1200)\<rceil>.
              \<exists>p. page_answer ?w None (QsStr ''j1'') (min 500 1200) (int k * min 500 1200) = Inr p
                   \<and> int (length (rows p)) = min (min 500 1200) (1200 - int k * min 500 1200)"
    using numbered_page_rows by simp
  have up: "[0..<3] = [0, 1, 2]" by (simp add: upt_rec)
  have a: "\<exists>res tr'.
         get_results ?w table_lib None (QsStr ''j1'') True None None = Some (res, tr')
         \<and> page_fetches tr'
             = [page_request None (QsStr ''j1'') 500 0, page_request None (QsStr ''j1'') 500 500,
                page_request None (QsStr ''j1'') 500 1000]
         \<and> length (page_fetches tr') = 3"
    using paginated_fetch [OF p s r pos o, of table_lib True None None, THEN conjunct1]
    by (simp add: up)
  have b: "\<exists>jr tr'.
         get_results ?w table_lib None (QsStr ''j1'') False None None = Some (Inr (Wrapper jr), tr')
         \<and> int (length (concat (map rows jr))) = 1200"
    using paginated_fetch [OF p s r pos o, of table_lib False None None, THEN conjunct2] pg
    by blast
  have l: "length (rows (page_of 1200 500 0)) = 500" "length (rows (page_of 1200 500 500)) = 500"
    "length (rows (page_of 1200 500 1000)) = 200"
    by (simp_all add: page_of_def)
  show ?thesis
    using p s r completion_order_example a b l
    by (simp only: numbered_page_answer simp_thms)
qed

end
